theory Spec2Isabelle
  imports Main "HOL-Library.Word"
begin

unbundle bit_operations_syntax

section \<open>Errors, bounds-checked reads and loops\<close>

text \<open>
  Every Go function of the repository that can fail is modelled with a result of type
  \<open>error + 'a\<close>: \<open>Inl\<close> carries the error (or the run-time panic), \<open>Inr\<close> the value.
\<close>

datatype error =
    UnsupportedInputs nat nat
  | UnsupportedT nat
  | ExpectedInputs nat nat
  | IndexOutOfRange
  | ParseCommitmentFailed string
  | StoreError

definition bindE :: "error + 'a \<Rightarrow> ('a \<Rightarrow> error + 'b) \<Rightarrow> error + 'b" where
  "bindE m f = (case m of Inl e \<Rightarrow> Inl e | Inr x \<Rightarrow> f x)"

text \<open>A slice read \<open>xs[i]\<close>: Go panics when the index is out of range.\<close>

definition index :: "'a list \<Rightarrow> nat \<Rightarrow> error + 'a" where
  "index xs i = (if i < length xs then Inr (xs ! i) else Inl IndexOutOfRange)"

text \<open>
  \<open>for i := lo; i < hi; i++ { body }\<close> is \<open>for_loop lo hi body\<close>: the body is run on
  \<open>lo, lo + 1, ...\<close> in order, threading the loop's state, and stops at the first failure.
\<close>

fun foldE :: "('a \<Rightarrow> 's \<Rightarrow> error + 's) \<Rightarrow> 'a list \<Rightarrow> 's \<Rightarrow> error + 's" where
  "foldE body [] s = Inr s"
| "foldE body (x # xs) s = bindE (body x s) (foldE body xs)"

definition for_loop :: "nat \<Rightarrow> nat \<Rightarrow> (nat \<Rightarrow> 's \<Rightarrow> error + 's) \<Rightarrow> 's \<Rightarrow> error + 's" where
  "for_loop lo hi body s = foldE body [lo..<hi] s"

section \<open>Field arithmetic (fr.Element of BN254)\<close>

definition SNARK_FIELD_SIZE :: int where
  "SNARK_FIELD_SIZE =
     21888242871839275222246405745257275088548364400416034343698204186575808495617"

text \<open>
  An \<open>fr.Element\<close> is a residue modulo \<open>SNARK_FIELD_SIZE\<close>; \<open>Add\<close> and \<open>Mul\<close> reduce, and
  \<open>SetBigInt\<close> reduces an arbitrary big integer into the field.
\<close>

definition fr_add :: "int \<Rightarrow> int \<Rightarrow> int" where
  "fr_add a b = (a + b) mod SNARK_FIELD_SIZE"

definition fr_mul :: "int \<Rightarrow> int \<Rightarrow> int" where
  "fr_mul a b = (a * b) mod SNARK_FIELD_SIZE"

definition SetBigInt :: "int \<Rightarrow> int" where
  "SetBigInt v = v mod SNARK_FIELD_SIZE"

section \<open>Poseidon parameters\<close>

text \<open>
  The constant tables (\<open>poseidonC2\<close>, \<open>poseidonM2\<close>, ... in package crypto and \<open>C_T2\<close>,
  \<open>M_T2\<close>, ... in package poseidon) are not part of the sources at hand, so they are a
  parameter: a function from the width \<open>t\<close> to the four tables. An entry is the integer
  that its hexadecimal literal denotes.
\<close>

record tables =
  tblC :: "int list"
  tblM :: "int list list"
  tblP :: "int list list"
  tblS :: "int list"

definition nRoundsP_table :: "nat list" where
  "nRoundsP_table = [56, 57, 56, 60, 60, 63, 64, 63, 60, 66, 60, 65, 70, 60, 64, 68]"

section \<open>Poseidon, scalar (crypto.PoseidonHash)\<close>

text \<open>\<open>getFr\<close>: the table entry as a field element.\<close>

definition getFr :: "int \<Rightarrow> int" where
  "getFr h = SetBigInt h"

definition sBox :: "int \<Rightarrow> int" where
  "sBox x = (let x2 = fr_mul x x; x4 = fr_mul x2 x2 in fr_mul x4 x)"

text \<open>\<open>for i := 0; i < t; i++ { state[i] = sBox(state[i]) }\<close>\<close>

definition sBoxAll :: "nat \<Rightarrow> int list \<Rightarrow> error + int list" where
  "sBoxAll t state =
     for_loop 0 t (\<lambda>i st. bindE (index st i) (\<lambda>x. Inr (st[i := sBox x]))) state"

definition ark :: "int list \<Rightarrow> nat \<Rightarrow> int list \<Rightarrow> nat \<Rightarrow> error + int list" where
  "ark c t state r =
     for_loop 0 t
       (\<lambda>i st. bindE (index st i) (\<lambda>x.
                bindE (index c (i + r)) (\<lambda>k. Inr (st[i := fr_add x (getFr k)]))))
       state"

definition mix :: "nat \<Rightarrow> int list \<Rightarrow> int list list \<Rightarrow> error + int list" where
  "mix t state matrix =
     for_loop 0 t
       (\<lambda>i result.
          bindE (for_loop 0 t
                   (\<lambda>j acc. bindE (index state j) (\<lambda>x.
                             bindE (index matrix j) (\<lambda>row.
                             bindE (index row i) (\<lambda>k.
                               Inr (fr_add acc (fr_mul x (getFr k)))))))
                   0)
                (\<lambda>acc. Inr (result[i := acc])))
       (replicate t 0)"

definition mixS :: "int list \<Rightarrow> nat \<Rightarrow> int list \<Rightarrow> nat \<Rightarrow> error + int list" where
  "mixS s t state r =
     (let sOffset = (t * 2 - 1) * r in
      bindE (for_loop 0 t
               (\<lambda>i acc. bindE (index state i) (\<lambda>x.
                         bindE (index s (sOffset + i)) (\<lambda>k.
                           Inr (fr_add acc (fr_mul x (getFr k))))))
               0)
        (\<lambda>r0.
           for_loop 1 t
             (\<lambda>i result. bindE (index state i) (\<lambda>x.
                          bindE (index state 0) (\<lambda>x0.
                          bindE (index s (sOffset + t + i - 1)) (\<lambda>k.
                            Inr (result[i := fr_add x (fr_mul x0 (getFr k))])))))
             ((replicate t 0)[0 := r0])))"

text \<open>One full round: S-box on every cell, round constants at offset \<open>off\<close>, dense mix.\<close>

definition full_round ::
  "int list \<Rightarrow> nat \<Rightarrow> int list list \<Rightarrow> nat \<Rightarrow> int list \<Rightarrow> error + int list" where
  "full_round c t matrix off state =
     bindE (sBoxAll t state) (\<lambda>st. bindE (ark c t st off) (\<lambda>st. mix t st matrix))"

definition partial_round ::
  "int list \<Rightarrow> int list \<Rightarrow> nat \<Rightarrow> nat \<Rightarrow> nat \<Rightarrow> int list \<Rightarrow> error + int list" where
  "partial_round c s t nRoundsF r state =
     bindE (index state 0) (\<lambda>x0.
     bindE (index c ((nRoundsF div 2 + 1) * t + r)) (\<lambda>k.
       mixS s t (state[0 := fr_add (sBox x0) (getFr k)]) r))"

definition PoseidonHash :: "(nat \<Rightarrow> tables) \<Rightarrow> int list \<Rightarrow> error + int" where
  "PoseidonHash tab inputs =
     (let nInputs = length inputs; t = nInputs + 1 in
      if t \<noteq> 2 \<and> t \<noteq> 4 \<and> t \<noteq> 5 then Inl (UnsupportedInputs nInputs t)
      else
        let c = tblC (tab t); m = tblM (tab t); p = tblP (tab t); s = tblS (tab t);
            nRoundsF = 8
        in
        bindE (index nRoundsP_table (t - 2)) (\<lambda>nRoundsP.
        bindE (ark c t (0 # inputs) 0) (\<lambda>state.
        bindE (for_loop 0 (nRoundsF div 2 - 1)
                 (\<lambda>r. full_round c t m ((r + 1) * t)) state) (\<lambda>state.
        bindE (full_round c t p ((nRoundsF div 2) * t) state) (\<lambda>state.
        bindE (for_loop 0 nRoundsP (partial_round c s t nRoundsF) state) (\<lambda>state.
        bindE (for_loop 0 (nRoundsF div 2 - 1)
                 (\<lambda>r. full_round c t m ((nRoundsF div 2 + 1) * t + nRoundsP + r * t))
                 state) (\<lambda>state.
        bindE (sBoxAll t state) (\<lambda>state.
        bindE (mix t state m) (\<lambda>state.
          index state 0)))))))))"

section \<open>Poseidon, in-circuit (package poseidon)\<close>

text \<open>
  The circuit is written against gnark's \<open>frontend.API\<close>. Only \<open>Add\<close> and \<open>Mul\<close> are used,
  on variables and on constants (\<open>big.Int\<close> values and the literal \<open>0\<close>), so the API is a
  record of the two gates and of the embedding of a constant as a variable.
\<close>

record 'v api =
  api_Add :: "'v \<Rightarrow> 'v \<Rightarrow> 'v"
  api_Mul :: "'v \<Rightarrow> 'v \<Rightarrow> 'v"
  api_Const :: "int \<Rightarrow> 'v"

record Parameters =
  par_T :: nat
  par_NRoundsF :: nat
  par_NRoundsP :: nat
  par_C :: "int list"
  par_M :: "int list list"
  par_P :: "int list list"
  par_S :: "int list"

definition GetParams :: "(nat \<Rightarrow> tables) \<Rightarrow> nat \<Rightarrow> error + Parameters" where
  "GetParams tab t =
     (if t \<noteq> 2 \<and> t \<noteq> 4 \<and> t \<noteq> 5 then Inl (UnsupportedT t)
      else
        bindE (index nRoundsP_table (t - 2)) (\<lambda>rp.
          Inr \<lparr> par_T = t, par_NRoundsF = 8, par_NRoundsP = rp,
                par_C = tblC (tab t), par_M = tblM (tab t),
                par_P = tblP (tab t), par_S = tblS (tab t) \<rparr>))"

text \<open>A \<open>Hasher\<close> is the API together with the parameters; \<open>NewHasher\<close> builds it.\<close>

definition NewHasher ::
  "(nat \<Rightarrow> tables) \<Rightarrow> 'v api \<Rightarrow> nat \<Rightarrow> error + ('v api \<times> Parameters)" where
  "NewHasher tab a nInputs =
     (let t = nInputs + 1 in bindE (GetParams tab t) (\<lambda>params. Inr (a, params)))"

definition Hasher_sBox :: "'v api \<Rightarrow> 'v \<Rightarrow> 'v" where
  "Hasher_sBox a x = (let x2 = api_Mul a x x; x4 = api_Mul a x2 x2 in api_Mul a x4 x)"

definition Hasher_sBoxAll :: "'v api \<Rightarrow> nat \<Rightarrow> 'v list \<Rightarrow> error + 'v list" where
  "Hasher_sBoxAll a t state =
     for_loop 0 t (\<lambda>i st. bindE (index st i) (\<lambda>x. Inr (st[i := Hasher_sBox a x]))) state"

definition Hasher_arkAtOffset ::
  "'v api \<Rightarrow> Parameters \<Rightarrow> 'v list \<Rightarrow> nat \<Rightarrow> error + 'v list" where
  "Hasher_arkAtOffset a params state offset =
     (let t = par_T params in
      for_loop 0 t
        (\<lambda>i st. bindE (index (par_C params) (offset + i)) (\<lambda>c.
                 bindE (index st i) (\<lambda>x. Inr (st[i := api_Add a x (api_Const a c)]))))
        state)"

definition Hasher_mix ::
  "'v api \<Rightarrow> Parameters \<Rightarrow> 'v list \<Rightarrow> int list list \<Rightarrow> error + 'v list" where
  "Hasher_mix a params state matrix =
     (let t = par_T params in
      for_loop 0 t
        (\<lambda>i result.
           bindE (for_loop 0 t
                    (\<lambda>j acc. bindE (index matrix j) (\<lambda>row.
                              bindE (index row i) (\<lambda>m.
                              bindE (index state j) (\<lambda>x.
                                Inr (api_Add a acc (api_Mul a x (api_Const a m)))))))
                    (api_Const a 0))
                 (\<lambda>acc. Inr (result[i := acc])))
        (replicate t (api_Const a 0)))"

definition Hasher_mixS ::
  "'v api \<Rightarrow> Parameters \<Rightarrow> 'v list \<Rightarrow> nat \<Rightarrow> error + 'v list" where
  "Hasher_mixS a params state round =
     (let t = par_T params; sOffset = (t * 2 - 1) * round in
      bindE (for_loop 0 t
               (\<lambda>i acc. bindE (index (par_S params) (sOffset + i)) (\<lambda>s.
                         bindE (index state i) (\<lambda>x.
                           Inr (api_Add a acc (api_Mul a x (api_Const a s))))))
               (api_Const a 0))
        (\<lambda>acc.
           for_loop 1 t
             (\<lambda>i result. bindE (index (par_S params) (sOffset + t + i - 1)) (\<lambda>s.
                          bindE (index state 0) (\<lambda>x0.
                          bindE (index state i) (\<lambda>x.
                            Inr (result[i := api_Add a x (api_Mul a x0 (api_Const a s))])))))
             ((replicate t (api_Const a 0))[0 := acc])))"

definition Hasher_full_round ::
  "'v api \<Rightarrow> Parameters \<Rightarrow> int list list \<Rightarrow> nat \<Rightarrow> 'v list \<Rightarrow> error + 'v list" where
  "Hasher_full_round a params matrix off state =
     bindE (Hasher_sBoxAll a (par_T params) state) (\<lambda>st.
     bindE (Hasher_arkAtOffset a params st off) (\<lambda>st. Hasher_mix a params st matrix))"

definition Hasher_partial_round ::
  "'v api \<Rightarrow> Parameters \<Rightarrow> nat \<Rightarrow> 'v list \<Rightarrow> error + 'v list" where
  "Hasher_partial_round a params r state =
     (let t = par_T params; rf = par_NRoundsF params; cIdx = (rf div 2 + 1) * t + r in
      bindE (index state 0) (\<lambda>x0.
      bindE (index (par_C params) cIdx) (\<lambda>c.
        Hasher_mixS a params (state[0 := api_Add a (Hasher_sBox a x0) (api_Const a c)]) r)))"

definition Hasher_Hash :: "'v api \<times> Parameters \<Rightarrow> 'v list \<Rightarrow> error + 'v" where
  "Hasher_Hash h inputs =
     (let a = fst h; params = snd h in
      if length inputs \<noteq> par_T params - 1
      then Inl (ExpectedInputs (par_T params - 1) (length inputs))
      else
        let t = par_T params; rf = par_NRoundsF params; rp = par_NRoundsP params in
        bindE (Hasher_arkAtOffset a params (api_Const a 0 # inputs) 0) (\<lambda>state.
        bindE (for_loop 0 (rf div 2 - 1)
                 (\<lambda>r. Hasher_full_round a params (par_M params) ((r + 1) * t)) state)
              (\<lambda>state.
        bindE (Hasher_full_round a params (par_P params) ((rf div 2) * t) state) (\<lambda>state.
        bindE (for_loop 0 rp (Hasher_partial_round a params) state) (\<lambda>state.
        bindE (for_loop 0 (rf div 2 - 1)
                 (\<lambda>r. Hasher_full_round a params (par_M params)
                         ((rf div 2 + 1) * t + rp + r * t))
                 state) (\<lambda>state.
        bindE (Hasher_sBoxAll a t state) (\<lambda>state.
        bindE (Hasher_mix a params state (par_M params)) (\<lambda>state.
          index state 0))))))))"

definition Hash1 :: "(nat \<Rightarrow> tables) \<Rightarrow> 'v api \<Rightarrow> 'v \<Rightarrow> error + 'v" where
  "Hash1 tab a x = bindE (NewHasher tab a 1) (\<lambda>h. Hasher_Hash h [x])"

definition Hash3 :: "(nat \<Rightarrow> tables) \<Rightarrow> 'v api \<Rightarrow> 'v \<Rightarrow> 'v \<Rightarrow> 'v \<Rightarrow> error + 'v" where
  "Hash3 tab a x y z = bindE (NewHasher tab a 3) (\<lambda>h. Hasher_Hash h [x, y, z])"

definition Hash4 ::
  "(nat \<Rightarrow> tables) \<Rightarrow> 'v api \<Rightarrow> 'v \<Rightarrow> 'v \<Rightarrow> 'v \<Rightarrow> 'v \<Rightarrow> error + 'v" where
  "Hash4 tab a x y z w = bindE (NewHasher tab a 4) (\<lambda>h. Hasher_Hash h [x, y, z, w])"

text \<open>
  Evaluating the gates on a witness: a variable is a field element, \<open>Add\<close> and \<open>Mul\<close> are
  the field operations and a constant is reduced into the field.
\<close>

definition field_api :: "int api" where
  "field_api = \<lparr> api_Add = fr_add, api_Mul = fr_mul, api_Const = SetBigInt \<rparr>"

section \<open>Poseidon as the specification words it\<close>

text \<open>
  The round sequence of the specification, written on whole state vectors: slices of the
  constant vector are added cell by cell, the S-box is the fifth power in the field, a
  dense mix is \<open>result[i] = \<Sum>j. state[j] * M[j][i]\<close> and the sparse mix is
  \<open>new[0] = \<Sum>i. state[i] * S[o + i]\<close>, \<open>new[i] = state[i] + state[0] * S[o + t + i - 1]\<close>.
\<close>

definition spec_pow5 :: "int \<Rightarrow> int" where
  "spec_pow5 x = x ^ 5 mod SNARK_FIELD_SIZE"

definition spec_add_constants :: "int list \<Rightarrow> nat \<Rightarrow> nat \<Rightarrow> int list \<Rightarrow> int list" where
  "spec_add_constants c lo t state =
     map (\<lambda>i. (state ! i + c ! (lo + i)) mod SNARK_FIELD_SIZE) [0..<t]"

definition spec_dense_mix :: "int list list \<Rightarrow> nat \<Rightarrow> int list \<Rightarrow> int list" where
  "spec_dense_mix M t state =
     map (\<lambda>i. (\<Sum>j<t. state ! j * (M ! j ! i)) mod SNARK_FIELD_SIZE) [0..<t]"

definition spec_sparse_mix :: "int list \<Rightarrow> nat \<Rightarrow> nat \<Rightarrow> int list \<Rightarrow> int list" where
  "spec_sparse_mix S t r state =
     (let off = (2 * t - 1) * r in
      map (\<lambda>i. if i = 0 then (\<Sum>k<t. state ! k * S ! (off + k)) mod SNARK_FIELD_SIZE
                else (state ! i + state ! 0 * S ! (off + t + i - 1)) mod SNARK_FIELD_SIZE)
          [0..<t])"

definition spec_full_round ::
  "int list \<Rightarrow> int list list \<Rightarrow> nat \<Rightarrow> nat \<Rightarrow> int list \<Rightarrow> int list" where
  "spec_full_round c M t lo state =
     spec_dense_mix M t (spec_add_constants c lo t (map spec_pow5 state))"

definition spec_partial_round ::
  "int list \<Rightarrow> int list \<Rightarrow> nat \<Rightarrow> nat \<Rightarrow> nat \<Rightarrow> int list \<Rightarrow> int list" where
  "spec_partial_round c S t RF r state =
     (let s0 = (spec_pow5 (state ! 0) + c ! ((RF div 2 + 1) * t + r)) mod SNARK_FIELD_SIZE
      in spec_sparse_mix S t r (state[0 := s0]))"

text \<open>The partial-round count of the specification's data model.\<close>

definition spec_RP :: "nat \<Rightarrow> nat" where
  "spec_RP t = [56, 57, 56, 60, 60, 63, 64, 63, 60, 66, 60, 65, 70, 60, 64, 68] ! (t - 2)"

definition spec_Poseidon :: "tables \<Rightarrow> int list \<Rightarrow> int" where
  "spec_Poseidon tb inputs =
     (let t = length inputs + 1; RF = 8; RP = spec_RP t;
          c = tblC tb; M = tblM tb; P = tblP tb; S = tblS tb;
          st1 = spec_add_constants c 0 t (0 # inputs);
          st2 = fold (\<lambda>r. spec_full_round c M t ((r + 1) * t)) [0..<RF div 2 - 1] st1;
          st3 = spec_full_round c P t ((RF div 2) * t) st2;
          st4 = fold (spec_partial_round c S t RF) [0..<RP] st3;
          st5 = fold (\<lambda>r. spec_full_round c M t ((RF div 2 + 1) * t + RP + r * t))
                  [0..<RF div 2 - 1] st4;
          st6 = spec_dense_mix M t (map spec_pow5 st5)
      in st6 ! 0)"

text \<open>The table sizes of the specification's data model.\<close>

definition tables_ok :: "nat \<Rightarrow> tables \<Rightarrow> bool" where
  "tables_ok t tb =
     (length (tblC tb) = 8 * t + spec_RP t \<and>
      length (tblM tb) = t \<and> list_all (\<lambda>row. length row = t) (tblM tb) \<and>
      length (tblP tb) = t \<and> list_all (\<lambda>row. length row = t) (tblP tb) \<and>
      length (tblS tb) = (2 * t - 1) * spec_RP t)"

text \<open>
  A concrete family of well-sized tables (the repository's own constants are not at hand),
  used to run the definitions on explicit inputs.
\<close>

definition sample_tables :: "nat \<Rightarrow> tables" where
  "sample_tables t =
     \<lparr> tblC = map int [0..<8 * t + spec_RP t],
       tblM = map (\<lambda>i. map (\<lambda>j. int (i * t + j + 1)) [0..<t]) [0..<t],
       tblP = map (\<lambda>i. map (\<lambda>j. int (i + j * t + 2)) [0..<t]) [0..<t],
       tblS = map (\<lambda>k. int (3 * k + 1)) [0..<(2 * t - 1) * spec_RP t] \<rparr>"

section \<open>Bytes, strings and big integers (Go's standard library)\<close>

text \<open>
  A byte is an integer in \<open>[0, 256)\<close>, a Go string is its list of bytes, and a \<open>big.Int\<close>
  is an integer. The functions of this section and of the next are the standard library's
  (\<open>encoding/hex\<close>, \<open>math/big\<close>, \<open>crypto/sha256\<close>), embedded from their documentation.
\<close>

type_synonym byte = int

definition bytes_of :: "string \<Rightarrow> byte list" where
  "bytes_of s = map of_char s"

definition hex_digit :: "int \<Rightarrow> char" where
  "hex_digit d = ''0123456789abcdef'' ! nat d"

definition EncodeToString :: "byte list \<Rightarrow> string" where
  "EncodeToString bs = concat (map (\<lambda>b. [hex_digit (b div 16), hex_digit (b mod 16)]) bs)"

text \<open>\<open>SetBytes\<close>: the bytes as a big-endian unsigned integer.\<close>

definition SetBytes :: "byte list \<Rightarrow> int" where
  "SetBytes bs = foldl (\<lambda>a b. a * 256 + b) 0 bs"

text \<open>\<open>Bytes\<close>: the absolute value as big-endian bytes, without leading zeros.\<close>

function le_bytes :: "int \<Rightarrow> byte list" where
  "le_bytes n = (if n \<le> 0 then [] else n mod 256 # le_bytes (n div 256))"
  by pat_completeness auto
termination
  by (relation "measure nat") auto

definition Bytes :: "int \<Rightarrow> byte list" where
  "Bytes n = rev (le_bytes \<bar>n\<bar>)"

definition be_bytes :: "nat \<Rightarrow> int \<Rightarrow> byte list" where
  "be_bytes n v = map (\<lambda>i. (v div 256 ^ (n - 1 - i)) mod 256) [0..<n]"

text \<open>
  \<open>SetString(s, base)\<close> for a base from 2 to 36: an optional sign, then one or more digits of
  the base (letters of either case for the digits from ten on), and nothing else. When the
  string is not of that form the call fails and leaves its receiver undefined; the callers of
  this repository ignore the failure, so the value they go on with is a parameter \<open>undef\<close> of
  the model: any function from the rejected string to an integer (\<open>zero_on_failure\<close> is one).
\<close>

definition digit_value :: "char \<Rightarrow> int option" where
  "digit_value c =
     (if 48 \<le> (of_char c :: int) \<and> (of_char c :: int) \<le> 57 then Some (of_char c - 48)
      else if 97 \<le> (of_char c :: int) \<and> (of_char c :: int) \<le> 122 then Some (of_char c - 87)
      else if 65 \<le> (of_char c :: int) \<and> (of_char c :: int) \<le> 90 then Some (of_char c - 55)
      else None)"

fun scan_digits :: "int \<Rightarrow> string \<Rightarrow> int \<Rightarrow> int option" where
  "scan_digits b [] acc = Some acc"
| "scan_digits b (c # cs) acc =
     (case digit_value c of
        None \<Rightarrow> None
      | Some d \<Rightarrow> if d < b then scan_digits b cs (acc * b + d) else None)"

definition scan_unsigned :: "int \<Rightarrow> string \<Rightarrow> int option" where
  "scan_unsigned b s = (if s = [] then None else scan_digits b s 0)"

fun parse_int :: "string \<Rightarrow> int \<Rightarrow> int option" where
  "parse_int [] b = None"
| "parse_int (c # cs) b =
     (if c = CHR ''-'' then map_option uminus (scan_unsigned b cs)
      else if c = CHR ''+'' then scan_unsigned b cs
      else scan_unsigned b (c # cs))"

definition zero_on_failure :: "string \<Rightarrow> int" where
  "zero_on_failure s = 0"

definition SetString :: "(string \<Rightarrow> int) \<Rightarrow> string \<Rightarrow> int \<Rightarrow> int" where
  "SetString undef s b = (case parse_int s b of Some v \<Rightarrow> v | None \<Rightarrow> undef s)"

text \<open>The decimal rendering of an integer (\<open>String\<close> of a field element, \<open>%d\<close>).\<close>

function dec_loop :: "int \<Rightarrow> string \<Rightarrow> string" where
  "dec_loop n acc =
     (if n < 10 then hex_digit n # acc else dec_loop (n div 10) (hex_digit (n mod 10) # acc))"
  by pat_completeness auto
termination
  by (relation "measure (\<lambda>(n, acc). nat n)") auto

definition Itoa :: "int \<Rightarrow> string" where
  "Itoa n = (if n < 0 then CHR ''-'' # dec_loop (- n) [] else dec_loop n [])"

section \<open>SHA-256 (crypto/sha256, FIPS 180-4)\<close>

text \<open>
  The round constants (from the cube roots of the first 64 primes) and the initial hash value
  (from the square roots of the first 8 primes), in decimal.
\<close>

definition sha_K :: "int list" where
  "sha_K =
     [1116352408, 1899447441, 3049323471, 3921009573, 961987163, 1508970993,
      2453635748, 2870763221, 3624381080, 310598401, 607225278, 1426881987,
      1925078388, 2162078206, 2614888103, 3248222580, 3835390401, 4022224774,
      264347078, 604807628, 770255983, 1249150122, 1555081692, 1996064986,
      2554220882, 2821834349, 2952996808, 3210313671, 3336571891, 3584528711,
      113926993, 338241895, 666307205, 773529912, 1294757372, 1396182291,
      1695183700, 1986661051, 2177026350, 2456956037, 2730485921, 2820302411,
      3259730800, 3345764771, 3516065817, 3600352804, 4094571909, 275423344,
      430227734, 506948616, 659060556, 883997877, 958139571, 1322822218,
      1537002063, 1747873779, 1955562222, 2024104815, 2227730452, 2361852424,
      2428436474, 2756734187, 3204031479, 3329325298]"

definition sha_H0 :: "int list" where
  "sha_H0 =
     [1779033703, 3144134277, 1013904242, 2773480762,
      1359893119, 2600822924, 528734635, 1541459225]"

text \<open>32-bit words are integers in \<open>[0, 2^32)\<close>; every operation that can leave the range wraps.\<close>

definition add32 :: "int \<Rightarrow> int \<Rightarrow> int" where
  "add32 x y = (x + y) mod 4294967296"

definition not32 :: "int \<Rightarrow> int" where
  "not32 x = 4294967295 - x"

definition rotr :: "nat \<Rightarrow> int \<Rightarrow> int" where
  "rotr n x = (x div 2 ^ n) OR ((x * 2 ^ (32 - n)) mod 4294967296)"

definition ssig0 :: "int \<Rightarrow> int" where
  "ssig0 x = rotr 7 x XOR rotr 18 x XOR (x div 2 ^ 3)"

definition ssig1 :: "int \<Rightarrow> int" where
  "ssig1 x = rotr 17 x XOR rotr 19 x XOR (x div 2 ^ 10)"

definition bsig0 :: "int \<Rightarrow> int" where
  "bsig0 x = rotr 2 x XOR rotr 13 x XOR rotr 22 x"

definition bsig1 :: "int \<Rightarrow> int" where
  "bsig1 x = rotr 6 x XOR rotr 11 x XOR rotr 25 x"

definition Ch :: "int \<Rightarrow> int \<Rightarrow> int \<Rightarrow> int" where
  "Ch x y z = (x AND y) XOR (not32 x AND z)"

definition Maj :: "int \<Rightarrow> int \<Rightarrow> int \<Rightarrow> int" where
  "Maj x y z = (x AND y) XOR (x AND z) XOR (y AND z)"

text \<open>Padding: 0x80, zeros up to 56 mod 64, then the bit length on 8 bytes, big-endian.\<close>

definition sha_pad :: "byte list \<Rightarrow> byte list" where
  "sha_pad m = m @ [128] @ replicate ((119 - length m mod 64) mod 64) 0
                 @ be_bytes 8 (8 * int (length m))"

fun chunks :: "nat \<Rightarrow> nat \<Rightarrow> 'a list \<Rightarrow> 'a list list" where
  "chunks 0 k xs = []"
| "chunks (Suc n) k xs = take k xs # chunks n k (drop k xs)"

fun sha_extend :: "nat \<Rightarrow> int list \<Rightarrow> int list" where
  "sha_extend 0 w = w"
| "sha_extend (Suc n) w =
     (let i = length w
      in sha_extend n
           (w @ [add32 (add32 (add32 (ssig1 (w ! (i - 2))) (w ! (i - 7))) (ssig0 (w ! (i - 15))))
                       (w ! (i - 16))]))"

definition sha_round :: "int \<times> int \<Rightarrow> int list \<Rightarrow> int list" where
  "sha_round kw s =
     (case s of [a, b, c, d, e, f, g, h] \<Rightarrow>
        (let t1 = add32 (add32 (add32 (add32 h (bsig1 e)) (Ch e f g)) (fst kw)) (snd kw);
             t2 = add32 (bsig0 a) (Maj a b c)
         in [add32 t1 t2, a, b, c, add32 d t1, e, f, g])
      | _ \<Rightarrow> s)"

definition sha_block :: "int list \<Rightarrow> byte list \<Rightarrow> int list" where
  "sha_block hs blk =
     map2 add32 hs (fold sha_round (zip sha_K (sha_extend 48 (map SetBytes (chunks 16 4 blk)))) hs)"

fun sha_blocks :: "int list \<Rightarrow> byte list list \<Rightarrow> int list" where
  "sha_blocks hs [] = hs"
| "sha_blocks hs (blk # rest) = sha_blocks (sha_block hs blk) rest"

definition split_blocks :: "byte list \<Rightarrow> byte list list" where
  "split_blocks p = chunks (length p div 64) 64 p"

definition Sum256 :: "byte list \<Rightarrow> byte list" where
  "Sum256 m = concat (map (be_bytes 4) (sha_blocks sha_H0 (split_blocks (sha_pad m))))"

section \<open>Package crypto: digests as field elements\<close>

definition Sha256 :: "byte list \<Rightarrow> byte list" where
  "Sha256 data = Sum256 data"

definition Sha256Hex :: "byte list \<Rightarrow> string" where
  "Sha256Hex data = EncodeToString (Sha256 data)"

text \<open>
  \<open>SplitHashToFieldElements\<close>: the mask is \<open>2^128 - 1\<close>; the first result is the value under
  the mask, the second the value shifted right by 128 bits, then masked.
\<close>

definition SplitHashToFieldElements :: "(string \<Rightarrow> int) \<Rightarrow> string \<Rightarrow> int \<times> int" where
  "SplitHashToFieldElements undef hexString =
     (let fullValue = SetString undef hexString 16;
          mask128 = push_bit 128 1 - 1;
          p1Int = fullValue AND mask128;
          p2Int = drop_bit 128 fullValue AND mask128
      in (SetBigInt p1Int, SetBigInt p2Int))"

text \<open>\<open>PoseidonHashString\<close>: SHA-256 of the string, reduced into the field (no Poseidon).\<close>

definition PoseidonHashString :: "string \<Rightarrow> int" where
  "PoseidonHashString s = SetBigInt (SetBytes (Sum256 (bytes_of s)))"

definition SplitMetadataHash :: "(string \<Rightarrow> int) \<Rightarrow> string \<Rightarrow> int \<times> int" where
  "SplitMetadataHash undef metaRaw =
     SplitHashToFieldElements undef (EncodeToString (Sum256 (bytes_of metaRaw)))"

section \<open>Package utils: hostname derivation\<close>

definition utils_Sha256 :: "string \<Rightarrow> string" where
  "utils_Sha256 str = EncodeToString (Sum256 (bytes_of str))"

definition alphabet :: string where
  "alphabet = ''abcdefghijklmnopqrstuvwxyz-''"

text \<open>
  The loop of \<open>Base27\<close>: while \<open>n > 0\<close>, divide by 27 and append the letter of the remainder.
\<close>

function base27_loop :: "int \<Rightarrow> string \<Rightarrow> string" where
  "base27_loop n result =
     (if n > 0 then base27_loop (n div 27) (result @ [alphabet ! nat (n mod 27)]) else result)"
  by pat_completeness auto
termination
  by (relation "measure (\<lambda>(n, result). nat n)") auto

definition Base27_value :: "int \<Rightarrow> string" where
  "Base27_value n = (if n = 0 then [alphabet ! 0] else rev (base27_loop n []))"

definition Base27 :: "(string \<Rightarrow> int) \<Rightarrow> string \<Rightarrow> string" where
  "Base27 undef hexStr = Base27_value (SetString undef hexStr 16)"

text \<open>
  The 32-byte little-endian buffer: byte \<open>i\<close> of the buffer is byte \<open>len - 1 - i\<close> of the
  big-endian bytes, for \<open>i < 32\<close>; the rest stays zero.
\<close>

definition le_buffer :: "byte list \<Rightarrow> byte list" where
  "le_buffer beBytes =
     fold (\<lambda>i bytes. if i < 32 then bytes[i := beBytes ! (length beBytes - 1 - i)] else bytes)
       [0..<length beBytes] (replicate 32 0)"

definition DeriveHostnameFromCommitment ::
  "(string \<Rightarrow> int) \<Rightarrow> string \<Rightarrow> string \<Rightarrow> error + string" where
  "DeriveHostnameFromCommitment undef commitmentStr domain =
     (if SetString undef commitmentStr 10 = 0 \<and> commitmentStr \<noteq> ''0''
      then Inl (ParseCommitmentFailed commitmentStr)
      else Inr (''x'' @ Base27 undef
                  (EncodeToString (Sum256 (le_buffer (Bytes (SetString undef commitmentStr 10)))))
                @ ''x.'' @ domain))"

section \<open>Package signals: semantic verification\<close>

record signals_VerificationResult =
  vr_FqdnHash :: bool
  vr_MetadataPart1 :: bool
  vr_MetadataPart2 :: bool
  vr_TrustMethod :: bool
  vr_AllValid :: bool

record PTXSignals =
  sig_Domain :: string
  sig_MetadataRaw :: string
  sig_TrustMethod :: int

definition NewPTXSignals :: "string \<Rightarrow> string \<Rightarrow> int \<Rightarrow> PTXSignals" where
  "NewPTXSignals domain metadataRaw trustMethod =
     \<lparr> sig_Domain = domain, sig_MetadataRaw = metadataRaw, sig_TrustMethod = trustMethod \<rparr>"

text \<open>\<open>hashToBigInts\<close>: the first 16 bytes and the remaining bytes, each as a big integer.\<close>

definition hashToBigInts :: "byte list \<Rightarrow> error + (int \<times> int)" where
  "hashToBigInts data =
     (if length data < 16 then Inl IndexOutOfRange
      else Inr (SetBytes (take 16 data), SetBytes (drop 16 data)))"

text \<open>The body of the loop over the parsed signals.\<close>

definition scan_signal ::
  "int \<Rightarrow> int \<Rightarrow> int \<Rightarrow> int \<Rightarrow> int \<Rightarrow> signals_VerificationResult
     \<Rightarrow> signals_VerificationResult" where
  "scan_signal trustMethodBig metaP1 metaP2 fqdnBig sig res =
     (let res = (if sig = trustMethodBig then res\<lparr>vr_TrustMethod := True\<rparr> else res);
          res = (if sig = metaP1 then res\<lparr>vr_MetadataPart1 := True\<rparr> else res);
          res = (if sig = metaP2 then res\<lparr>vr_MetadataPart2 := True\<rparr> else res);
          res = (if sig = fqdnBig then res\<lparr>vr_FqdnHash := True\<rparr> else res)
      in res)"

definition scan_signals ::
  "PTXSignals \<Rightarrow> int list \<Rightarrow> int \<times> int \<Rightarrow> error + signals_VerificationResult" where
  "scan_signals s signals parts =
     Inr ((\<lambda>res. res\<lparr>vr_AllValid :=
                    vr_TrustMethod res \<and> vr_MetadataPart1 res \<and> vr_MetadataPart2 res\<rparr>)
          (fold (scan_signal (sig_TrustMethod s) (fst parts) (snd parts)
                   (SetBytes (Sum256 (bytes_of (sig_Domain s)))))
             signals
             \<lparr> vr_FqdnHash = False, vr_MetadataPart1 = False, vr_MetadataPart2 = False,
               vr_TrustMethod = False, vr_AllValid = False \<rparr>))"

definition VerifyAgainstProof ::
  "(string \<Rightarrow> int) \<Rightarrow> PTXSignals \<Rightarrow> string list \<Rightarrow> error + signals_VerificationResult" where
  "VerifyAgainstProof undef s publicSignals =
     bindE (hashToBigInts (Sum256 (bytes_of (sig_MetadataRaw s))))
       (scan_signals s (map (\<lambda>ps. SetString undef ps 10) publicSignals))"

section \<open>Package nonce: the replay store\<close>

text \<open>
  The Redis server is outside the repository. Its state is the map from keys to the value
  and the time-to-live (a \<open>time.Duration\<close>, in nanoseconds) they were stored with, whether the
  server answers, and the log of the commands it received. \<open>SetNX\<close> is set-if-absent: it
  stores the key and answers true when the key is absent, and answers false and changes
  nothing when the key is present.
\<close>

record redis =
  r_data :: "string \<rightharpoonup> string \<times> int"
  r_reachable :: bool
  r_commands :: "(string \<times> string \<times> int) list"

definition SetNX :: "redis \<Rightarrow> string \<Rightarrow> string \<Rightarrow> int \<Rightarrow> redis \<times> (error + bool)" where
  "SetNX st key val ttl =
     (let st = st\<lparr>r_commands := r_commands st @ [(key, val, ttl)]\<rparr> in
      if \<not> r_reachable st then (st, Inl StoreError)
      else if r_data st key \<noteq> None then (st, Inr False)
      else (st\<lparr>r_data := (r_data st)(key \<mapsto> (val, ttl))\<rparr>, Inr True))"

text \<open>
  \<open>CheckAndSetNonce\<close>: \<open>now\<close> is the clock read by the call; timestamps and durations are
  \<open>int64\<close>, so the difference and its product with \<open>time.Second\<close> (\<open>10^9\<close>) wrap. The result
  is the pair of the boolean and of the error, as in the source.
\<close>

definition time_Second :: "64 word" where
  "time_Second = 1000000000"

definition CheckAndSetNonce ::
  "64 word \<Rightarrow> redis \<Rightarrow> string \<Rightarrow> 64 word \<Rightarrow> redis \<times> bool \<times> error option" where
  "CheckAndSetNonce now st nonce expirationTimestamp =
     (if expirationTimestamp <s now then (st, False, None)
      else
        let ttl = (expirationTimestamp - now) * time_Second in
        case SetNX st nonce ''1'' (sint ttl) of
          (st', Inl err) \<Rightarrow> (st', False, Some err)
        | (st', Inr isNew) \<Rightarrow> (st', isNew, None))"

section \<open>Package prover: native proof generation\<close>

text \<open>The assignment of the circuit's eight variables, before reduction into the field.\<close>

record DoHCircuit =
  c_NullifierHash :: int
  c_Commitment :: int
  c_Fqdn :: int
  c_MetadataHashP1 :: int
  c_MetadataHashP2 :: int
  c_TrustMethod :: int
  c_Nullifier :: int
  c_Secret :: int

text \<open>
  \<open>frontend.NewWitness\<close> reduces every variable into the field, the public ones first, in the
  order of their declaration; \<open>Public\<close> keeps the six public ones.
\<close>

definition NewWitness :: "DoHCircuit \<Rightarrow> int list" where
  "NewWitness a =
     map SetBigInt [c_NullifierHash a, c_Commitment a, c_Fqdn a, c_MetadataHashP1 a,
                    c_MetadataHashP2 a, c_TrustMethod a, c_Nullifier a, c_Secret a]"

definition Public :: "int list \<Rightarrow> int list" where
  "Public witness = take 6 witness"

text \<open>
  gnark's compiler, key files, prover and verifier are outside the repository: their outcomes
  are fields of an environment. An error is its message; \<open>None\<close> is success.
\<close>

record gnark_env =
  g_Compile :: "string option"
  g_loadOrSetupKeys :: "string + (byte list \<times> byte list)"
  g_loadCachedVK :: "string + byte list"
  g_NewWitness_error :: "DoHCircuit \<Rightarrow> string option"
  g_Public_error :: "int list \<Rightarrow> string option"
  g_Prove :: "byte list \<Rightarrow> int list \<Rightarrow> string + byte list"
  g_ReadFrom_error :: "byte list \<Rightarrow> string option"
  g_Verify :: "byte list \<Rightarrow> byte list \<Rightarrow> int list \<Rightarrow> string option"

record CircuitInputs =
  in_NullifierHash :: string
  in_Commitment :: string
  in_Fqdn :: string
  in_MetadataHashP1 :: string
  in_MetadataHashP2 :: string
  in_TrustMethod :: string
  in_Nullifier :: string
  in_Secret :: string

record ProofWrapper =
  w_Source :: string
  w_PublicSignals :: "string list"
  w_Proof :: "byte list"
  w_ProofHex :: string

definition fromString :: "(string \<Rightarrow> int) \<Rightarrow> string \<Rightarrow> int" where
  "fromString undef s = SetString undef s 10"

definition prover_assignment :: "(string \<Rightarrow> int) \<Rightarrow> CircuitInputs \<Rightarrow> DoHCircuit" where
  "prover_assignment undef inputs =
     \<lparr> c_NullifierHash = fromString undef (in_NullifierHash inputs),
       c_Commitment = fromString undef (in_Commitment inputs),
       c_Fqdn = fromString undef (in_Fqdn inputs),
       c_MetadataHashP1 = fromString undef (in_MetadataHashP1 inputs),
       c_MetadataHashP2 = fromString undef (in_MetadataHashP2 inputs),
       c_TrustMethod = fromString undef (in_TrustMethod inputs),
       c_Nullifier = fromString undef (in_Nullifier inputs),
       c_Secret = fromString undef (in_Secret inputs) \<rparr>"

definition native_wrapper :: "CircuitInputs \<Rightarrow> byte list \<Rightarrow> ProofWrapper" where
  "native_wrapper inputs proofBytes =
     \<lparr> w_Source = ''gnark_native'',
       w_PublicSignals = [in_NullifierHash inputs, in_Commitment inputs, in_Fqdn inputs,
                          in_MetadataHashP1 inputs, in_MetadataHashP2 inputs,
                          in_TrustMethod inputs],
       w_Proof = [],
       w_ProofHex = EncodeToString proofBytes \<rparr>"

text \<open>
  \<open>GenerateProofNative\<close>: the result is the returned pair (here the wrapper that is
  marshalled, or the error message) together with the lines printed on standard output.
\<close>

definition self_verify_output :: "string option \<Rightarrow> string list" where
  "self_verify_output verdict =
     (case verdict of
        None \<Rightarrow> []
      | Some err \<Rightarrow> [''WARNING: Generated proof failed self-verification! '' @ err])"

definition GenerateProofNative ::
  "gnark_env \<Rightarrow> (string \<Rightarrow> int) \<Rightarrow> CircuitInputs \<Rightarrow> (string + ProofWrapper) \<times> string list" where
  "GenerateProofNative env undef inputs =
     (case g_Compile env of
        Some err \<Rightarrow> (Inl (''circuit compilation failed: '' @ err), [])
      | None \<Rightarrow>
     (case g_loadOrSetupKeys env of
        Inl err \<Rightarrow> (Inl (''key setup failed: '' @ err), [])
      | Inr keys \<Rightarrow>
     (case g_NewWitness_error env (prover_assignment undef inputs) of
        Some err \<Rightarrow> (Inl (''witness creation failed: '' @ err), [])
      | None \<Rightarrow>
     (case g_Public_error env (NewWitness (prover_assignment undef inputs)) of
        Some err \<Rightarrow> (Inl (''public witness creation failed: '' @ err), [])
      | None \<Rightarrow>
     (case g_Prove env (fst keys) (NewWitness (prover_assignment undef inputs)) of
        Inl err \<Rightarrow> (Inl (''proving failed: '' @ err), [])
      | Inr proofBytes \<Rightarrow>
          (Inr (native_wrapper inputs proofBytes),
           self_verify_output
             (g_Verify env proofBytes (snd keys)
                (Public (NewWitness (prover_assignment undef inputs))))))))))"

section \<open>Package verifier: the verification engine\<close>

datatype ProofSystem = GROTH16 | OtherProofSystem nat

record Proof =
  pr_ProofSystem :: ProofSystem
  pr_ProofData :: "byte list"

record PtxFile =
  ptx_TrustMethod :: int
  ptx_SignedMetadata :: string
  ptx_Proof :: "Proof option"
  ptx_DohDetails :: "string option"

text \<open>
  A decoded JSON value. The code reads a number only through \<open>int64(e)\<close>, so a number is
  represented by that conversion of its \<open>float64\<close>.
\<close>

datatype json =
    JNull
  | JBool bool
  | JNumber "64 word"
  | JString string
  | JArray "json list"
  | JObject "(string \<times> json) list"

record VerificationOptions =
  FilePath :: string
  IntendedScope :: "string list"
  IntendedAudience :: "string list"
  StrictMode :: bool
  RedisURL :: string
  Verbose :: bool

record DnsResult =
  dns_Valid :: bool
  dns_Error :: string
  dns_DerivedHostname :: string

record ZkResult =
  zk_Valid :: bool
  zk_Skipped :: bool
  zk_Semantic :: bool
  zk_Error :: string

record VerificationDetails =
  det_Fqdn :: string
  det_FqdnHash :: string
  det_MetadataJSON :: string
  det_MetadataHashP1 :: string
  det_MetadataHashP2 :: string
  det_TrustMethod :: string
  det_NullifierHash :: string
  det_Commitment :: string

record VerificationResult =
  res_Success :: bool
  res_Errors :: "string list"
  res_Dns :: DnsResult
  res_Zk :: ZkResult
  res_Details :: VerificationDetails

text \<open>
  What the engine calls outside the repository: the file loader and the protobuf decoder, the
  JSON decoder (into a map, into the proof wrapper, into the public signals alone), the
  clock (read once by \<open>Verify\<close> and once by \<open>CheckAndSetNonce\<close>), the DoH lookup, the Redis URL
  parser, the hex decoder, the legacy Circom verifier, and gnark. Wall-clock timings of the
  results are left out.
\<close>

record verifier_env =
  e_LoadPTX :: "string \<Rightarrow> string + PtxFile"
  e_json_map :: "string \<Rightarrow> (string \<rightharpoonup> json) option"
  e_json_wrapper :: "byte list \<Rightarrow> ProofWrapper option"
  e_json_signals :: "byte list \<Rightarrow> string list option"
  e_now :: "64 word"
  e_now_nonce :: "64 word"
  e_GetTXT :: "string \<Rightarrow> string + string list"
  e_ParseURL_error :: "string \<Rightarrow> string option"
  e_DecodeString :: "string \<Rightarrow> string + byte list"
  e_verifyCircomProof :: "byte list \<Rightarrow> string list \<Rightarrow> ZkResult"
  e_gnark :: gnark_env

definition no_DnsResult :: DnsResult where
  "no_DnsResult = \<lparr> dns_Valid = False, dns_Error = [], dns_DerivedHostname = [] \<rparr>"

definition ZkError :: "string \<Rightarrow> ZkResult" where
  "ZkError msg = \<lparr> zk_Valid = False, zk_Skipped = False, zk_Semantic = False, zk_Error = msg \<rparr>"

definition no_Details :: VerificationDetails where
  "no_Details = \<lparr> det_Fqdn = [], det_FqdnHash = [], det_MetadataJSON = [],
                  det_MetadataHashP1 = [], det_MetadataHashP2 = [], det_TrustMethod = [],
                  det_NullifierHash = [], det_Commitment = [] \<rparr>"

definition new_VerificationResult :: VerificationResult where
  "new_VerificationResult =
     \<lparr> res_Success = True, res_Errors = [], res_Dns = no_DnsResult,
       res_Zk = ZkError [], res_Details = no_Details \<rparr>"

definition fail_with :: "string \<Rightarrow> VerificationResult \<Rightarrow> VerificationResult" where
  "fail_with msg res = res\<lparr> res_Success := False, res_Errors := res_Errors res @ [msg] \<rparr>"

text \<open>\<open>strings.Contains\<close>\<close>

definition Contains :: "string \<Rightarrow> string \<Rightarrow> bool" where
  "Contains s substr =
     list_ex (\<lambda>i. take (length substr) (drop i s) = substr) [0..<Suc (length s)]"

definition domain_of :: "PtxFile \<Rightarrow> string" where
  "domain_of ptxFile = (case ptx_DohDetails ptxFile of None \<Rightarrow> [] | Some d \<Rightarrow> d)"

definition verifyDNS :: "verifier_env \<Rightarrow> (string \<Rightarrow> int) \<Rightarrow> PtxFile \<Rightarrow> DnsResult" where
  "verifyDNS env undef ptxFile =
     (case ptx_DohDetails ptxFile of
        None \<Rightarrow> no_DnsResult\<lparr>dns_Error := ''No DoH details found''\<rparr>
      | Some domainName \<Rightarrow>
     (case ptx_Proof ptxFile of
        None \<Rightarrow> no_DnsResult\<lparr>dns_Error := ''No proof found for commitment extraction''\<rparr>
      | Some com \<Rightarrow>
     (case e_json_signals env (pr_ProofData com) of
        None \<Rightarrow> no_DnsResult\<lparr>dns_Error := ''Failed to parse proof public signals''\<rparr>
      | Some publicSignals \<Rightarrow>
          if length publicSignals < 2
          then no_DnsResult\<lparr>dns_Error := ''Insufficient public signals for commitment extraction''\<rparr>
          else
     (case DeriveHostnameFromCommitment undef (publicSignals ! 1) domainName of
        Inl err \<Rightarrow>
          no_DnsResult\<lparr>dns_Error := ''Hostname derivation failed: failed to parse commitment: ''
                                        @ publicSignals ! 1\<rparr>
      | Inr hostname \<Rightarrow>
     (case e_GetTXT env hostname of
        Inl err \<Rightarrow> \<lparr> dns_Valid = False, dns_Error = ''DNS Lookup failed: '' @ err,
                      dns_DerivedHostname = hostname \<rparr>
      | Inr txt \<Rightarrow>
          if list_ex (\<lambda>record. Contains record (utils_Sha256 (ptx_SignedMetadata ptxFile))) txt
          then \<lparr> dns_Valid = True, dns_Error = [], dns_DerivedHostname = hostname \<rparr>
          else \<lparr> dns_Valid = False,
                 dns_Error = ''No matching TXT record found (Expected: ''
                               @ utils_Sha256 (ptx_SignedMetadata ptxFile) @ '')'',
                 dns_DerivedHostname = hostname \<rparr>)))))"

definition fromStringV :: "(string \<Rightarrow> int) \<Rightarrow> string \<Rightarrow> int" where
  "fromStringV undef s = SetString undef s 10"

text \<open>
  The assignment that \<open>verifyNativeGnarkProof\<close> builds: the first two variables from the
  proof's signals, the next four from the PTX payload, the private ones zero.
\<close>

definition native_assignment ::
  "(string \<Rightarrow> int) \<Rightarrow> string list \<Rightarrow> string \<Rightarrow> string \<Rightarrow> int \<Rightarrow> DoHCircuit" where
  "native_assignment undef proofSignals domain metaRaw trustMethod =
     \<lparr> c_NullifierHash = fromStringV undef (proofSignals ! 0),
       c_Commitment = fromStringV undef (proofSignals ! 1),
       c_Fqdn = PoseidonHashString domain,
       c_MetadataHashP1 = fst (SplitMetadataHash undef metaRaw),
       c_MetadataHashP2 = snd (SplitMetadataHash undef metaRaw),
       c_TrustMethod = trustMethod,
       c_Nullifier = 0,
       c_Secret = 0 \<rparr>"

definition verifyNativeGnarkProof ::
  "verifier_env \<Rightarrow> (string \<Rightarrow> int) \<Rightarrow> string \<Rightarrow> string list \<Rightarrow> string \<Rightarrow> string \<Rightarrow> int
     \<Rightarrow> ZkResult" where
  "verifyNativeGnarkProof env undef proofHex proofSignals domain metaRaw trustMethod =
     (case e_DecodeString env proofHex of
        Inl err \<Rightarrow> ZkError (''Failed to decode proof hex: '' @ err)
      | Inr proofBytes \<Rightarrow>
     (case g_Compile (e_gnark env) of
        Some err \<Rightarrow> ZkError (''Circuit compilation failed: '' @ err)
      | None \<Rightarrow>
     (case g_loadCachedVK (e_gnark env) of
        Inl err \<Rightarrow> ZkError (''Failed to load VK: '' @ err)
      | Inr gnarkVK \<Rightarrow>
     (case g_ReadFrom_error (e_gnark env) proofBytes of
        Some err \<Rightarrow> ZkError (''Failed to deserialize proof: '' @ err)
      | None \<Rightarrow>
          if length proofSignals < 2
          then ZkError ''Insufficient public signals in proof (need nullifierHash and commitment)''
          else
     (case g_NewWitness_error (e_gnark env)
             (native_assignment undef proofSignals domain metaRaw trustMethod) of
        Some err \<Rightarrow> ZkError (''Witness creation failed: '' @ err)
      | None \<Rightarrow>
     (case g_Public_error (e_gnark env)
             (NewWitness (native_assignment undef proofSignals domain metaRaw trustMethod)) of
        Some err \<Rightarrow> ZkError (''Public witness extraction failed: '' @ err)
      | None \<Rightarrow>
     (case g_Verify (e_gnark env) proofBytes gnarkVK
             (Public (NewWitness
                (native_assignment undef proofSignals domain metaRaw trustMethod))) of
        Some err \<Rightarrow> ZkError (''Native Gnark verification failed: '' @ err)
      | None \<Rightarrow> \<lparr> zk_Valid = True, zk_Skipped = False, zk_Semantic = True,
                    zk_Error = [] \<rparr>)))))))"

text \<open>
  \<open>verifyProof\<close>, after the wrapper is decoded: the semantic verdict decides whether the
  cryptographic check is reached, and the wrapper's source which one.
\<close>

definition dispatch_proof ::
  "verifier_env \<Rightarrow> (string \<Rightarrow> int) \<Rightarrow> PtxFile \<Rightarrow> string \<Rightarrow> ProofWrapper
     \<Rightarrow> signals_VerificationResult \<Rightarrow> error + ZkResult" where
  "dispatch_proof env undef ptxFile metaRaw wrapper semVerify =
     (if \<not> vr_AllValid semVerify
      then Inr (ZkError ''Semantic verification failed'')
      else if w_Source wrapper = ''gnark_native''
      then Inr (verifyNativeGnarkProof env undef (w_ProofHex wrapper)
                  (w_PublicSignals wrapper) (domain_of ptxFile) metaRaw
                  (ptx_TrustMethod ptxFile))
      else Inr (e_verifyCircomProof env (w_Proof wrapper) (w_PublicSignals wrapper)))"

definition verifyProof ::
  "verifier_env \<Rightarrow> (string \<Rightarrow> int) \<Rightarrow> PtxFile \<Rightarrow> string \<Rightarrow> error + ZkResult" where
  "verifyProof env undef ptxFile metaRaw =
     (case ptx_Proof ptxFile of
        None \<Rightarrow> Inr (ZkError ''No proof present'')
      | Some proof \<Rightarrow>
          if pr_ProofSystem proof \<noteq> GROTH16
          then Inr ((ZkError ''Unsupported Proof System (only Groth16 supported)'')
                      \<lparr>zk_Skipped := True\<rparr>)
          else
     (case e_json_wrapper env (pr_ProofData proof) of
        None \<Rightarrow> Inr (ZkError ''Invalid proof wrapper JSON'')
      | Some wrapper \<Rightarrow>
          bindE (VerifyAgainstProof undef
                   (NewPTXSignals (domain_of ptxFile) metaRaw (ptx_TrustMethod ptxFile))
                   (w_PublicSignals wrapper))
            (dispatch_proof env undef ptxFile metaRaw wrapper)))"

text \<open>The checks of \<open>Verify\<close> on the decoded metadata, in the order of the source.\<close>

definition check_expiration ::
  "verifier_env \<Rightarrow> (string \<rightharpoonup> json) \<Rightarrow> VerificationResult \<Rightarrow> VerificationResult" where
  "check_expiration env meta res =
     (case meta ''expiration_timestamp'' of
        Some (JNumber exp) \<Rightarrow> if exp <s e_now env then fail_with ''PTX token expired'' res else res
      | _ \<Rightarrow> res)"

text \<open>
  The scope loops: each element of \<open>scopes\<close> is asserted to be a string (a run-time panic
  otherwise) when it is compared with the first requested scope.
\<close>

datatype panic = TypeAssertionPanic | LoadPTXFailed string | SliceBoundsPanic

fun scope_loop :: "json list \<Rightarrow> string list \<Rightarrow> bool \<Rightarrow> panic + bool" where
  "scope_loop [] reqs found = Inr found"
| "scope_loop (JString s # rest) reqs found = scope_loop rest reqs (found \<or> s \<in> set reqs)"
| "scope_loop (other # rest) reqs found =
     (if reqs = [] then scope_loop rest reqs found else Inl TypeAssertionPanic)"

definition check_scope ::
  "VerificationOptions \<Rightarrow> (string \<rightharpoonup> json) \<Rightarrow> VerificationResult
     \<Rightarrow> panic + VerificationResult" where
  "check_scope opts meta res =
     (if IntendedScope opts = [] then Inr res
      else case meta ''scopes'' of
        Some (JArray scopes) \<Rightarrow>
          (case scope_loop scopes (IntendedScope opts) False of
             Inl p \<Rightarrow> Inl p
           | Inr found \<Rightarrow> Inr (if found then res else fail_with ''Scope mismatch'' res))
      | _ \<Rightarrow> Inr res)"

definition check_audience ::
  "VerificationOptions \<Rightarrow> (string \<rightharpoonup> json) \<Rightarrow> VerificationResult \<Rightarrow> VerificationResult" where
  "check_audience opts meta res =
     (if IntendedAudience opts = [] then res
      else case meta ''audience'' of
        Some (JString aud) \<Rightarrow>
          if aud \<in> set (IntendedAudience opts) then res else fail_with ''Audience mismatch'' res
      | _ \<Rightarrow> res)"

text \<open>
  The nonce check. The third component tells that \<open>Verify\<close> returns at once (the store could
  not be set up).
\<close>

definition nonce_expiration :: "(string \<rightharpoonup> json) \<Rightarrow> 64 word" where
  "nonce_expiration meta =
     (case meta ''expiration_timestamp'' of Some (JNumber e) \<Rightarrow> e | _ \<Rightarrow> 300)"

definition check_nonce ::
  "verifier_env \<Rightarrow> VerificationOptions \<Rightarrow> (string \<rightharpoonup> json) \<Rightarrow> VerificationResult \<Rightarrow> redis
     \<Rightarrow> VerificationResult \<times> redis \<times> bool" where
  "check_nonce env opts meta res store =
     (if RedisURL opts = [] then (res, store, False)
      else case meta ''nonce'' of
        Some (JString nonceVal) \<Rightarrow>
          (case e_ParseURL_error env (RedisURL opts) of
             Some err \<Rightarrow> (fail_with (''Failed to connect to nonce store: '' @ err) res, store, True)
           | None \<Rightarrow>
              (case CheckAndSetNonce (e_now_nonce env) store nonceVal (nonce_expiration meta) of
                 (store', valid, err) \<Rightarrow>
                   (if err \<noteq> None \<or> \<not> valid then fail_with ''Nonce invalid or replayed'' res
                    else res,
                    store', False)))
      | _ \<Rightarrow> (res, store, False))"

definition proof_signals :: "verifier_env \<Rightarrow> PtxFile \<Rightarrow> string \<times> string" where
  "proof_signals env ptxFile =
     (case ptx_Proof ptxFile of
        None \<Rightarrow> ([], [])
      | Some proof \<Rightarrow>
          (case e_json_signals env (pr_ProofData proof) of
             None \<Rightarrow> ([], [])
           | Some publicSignals \<Rightarrow>
               if length publicSignals \<ge> 2 then (publicSignals ! 0, publicSignals ! 1)
               else ([], [])))"

definition details ::
  "verifier_env \<Rightarrow> (string \<Rightarrow> int) \<Rightarrow> PtxFile \<Rightarrow> VerificationDetails" where
  "details env undef ptxFile =
     \<lparr> det_Fqdn = domain_of ptxFile,
       det_FqdnHash = Itoa (PoseidonHashString (domain_of ptxFile)),
       det_MetadataJSON = ptx_SignedMetadata ptxFile,
       det_MetadataHashP1 = Itoa (fst (SplitMetadataHash undef (ptx_SignedMetadata ptxFile))),
       det_MetadataHashP2 = Itoa (snd (SplitMetadataHash undef (ptx_SignedMetadata ptxFile))),
       det_TrustMethod = Itoa (ptx_TrustMethod ptxFile),
       det_NullifierHash = fst (proof_signals env ptxFile),
       det_Commitment = snd (proof_signals env ptxFile) \<rparr>"

text \<open>Steps 3 to 5 of \<open>Verify\<close>: the DNS verdict, the proof verdict, the details.\<close>

definition record_dns :: "DnsResult \<Rightarrow> VerificationResult \<Rightarrow> VerificationResult" where
  "record_dns dns res =
     (if \<not> dns_Valid dns then res\<lparr> res_Dns := dns, res_Success := False \<rparr>
      else res\<lparr> res_Dns := dns \<rparr>)"

definition record_zk :: "ZkResult \<Rightarrow> VerificationResult \<Rightarrow> VerificationResult" where
  "record_zk zk res =
     (if \<not> zk_Valid zk \<and> \<not> zk_Skipped zk
      then fail_with (''ZK proof invalid: '' @ zk_Error zk) (res\<lparr> res_Zk := zk \<rparr>)
      else res\<lparr> res_Zk := zk \<rparr>)"

definition finish_Verify ::
  "verifier_env \<Rightarrow> (string \<Rightarrow> int) \<Rightarrow> PtxFile \<Rightarrow> VerificationResult
     \<Rightarrow> panic + VerificationResult" where
  "finish_Verify env undef ptxFile res =
     (case verifyProof env undef ptxFile (ptx_SignedMetadata ptxFile) of
        Inl err \<Rightarrow> Inl SliceBoundsPanic
      | Inr zk \<Rightarrow>
          Inr ((record_zk zk (record_dns (verifyDNS env undef ptxFile) res))
                 \<lparr> res_Details := details env undef ptxFile \<rparr>))"

definition Verify ::
  "verifier_env \<Rightarrow> (string \<Rightarrow> int) \<Rightarrow> VerificationOptions \<Rightarrow> redis
     \<Rightarrow> panic + (VerificationResult \<times> redis)" where
  "Verify env undef opts store =
     (case e_LoadPTX env (FilePath opts) of
        Inl err \<Rightarrow> Inl (LoadPTXFailed (''failed to load PTX file: '' @ err))
      | Inr ptxFile \<Rightarrow>
     (case e_json_map env (ptx_SignedMetadata ptxFile) of
        None \<Rightarrow> Inr (fail_with ''Invalid metadata JSON'' new_VerificationResult, store)
      | Some meta \<Rightarrow>
     (case check_scope opts meta (check_expiration env meta new_VerificationResult) of
        Inl p \<Rightarrow> Inl p
      | Inr res \<Rightarrow>
     (case check_nonce env opts meta (check_audience opts meta res) store of
        (res, store', returned) \<Rightarrow>
          if returned then Inr (res, store')
          else (case finish_Verify env undef ptxFile res of
                  Inl p \<Rightarrow> Inl p
                | Inr res \<Rightarrow> Inr (res, store'))))))"

text \<open>Verifying the same file \<open>n\<close> times in a row, the store going from one run to the next.\<close>

fun Verify_times ::
  "nat \<Rightarrow> verifier_env \<Rightarrow> (string \<Rightarrow> int) \<Rightarrow> VerificationOptions \<Rightarrow> redis
     \<Rightarrow> panic + (VerificationResult list \<times> redis)" where
  "Verify_times 0 env undef opts store = Inr ([], store)"
| "Verify_times (Suc n) env undef opts store =
     (case Verify env undef opts store of
        Inl p \<Rightarrow> Inl p
      | Inr (res, store') \<Rightarrow>
          (case Verify_times n env undef opts store' of
             Inl p \<Rightarrow> Inl p
           | Inr (rest, store'') \<Rightarrow> Inr (res # rest, store'')))"

text \<open>
  What \<open>n\<close> runs in a row return when each of them returns \<open>r\<close> and leaves the store
  \<open>store\<close> as it was: \<open>n\<close> times the result of \<open>r\<close>, or the panic of the first run.
\<close>

definition repeated ::
  "nat \<Rightarrow> redis \<Rightarrow> panic + (VerificationResult \<times> redis)
     \<Rightarrow> panic + (VerificationResult list \<times> redis)" where
  "repeated n store r =
     (if n = 0 then Inr ([], store)
      else case r of Inl p \<Rightarrow> Inl p | Inr (res, store') \<Rightarrow> Inr (replicate n res, store))"

section \<open>Concrete environments\<close>

text \<open>Explicit inputs on which the definitions are run in the statements below.\<close>

definition empty_store :: redis where
  "empty_store = \<lparr> r_data = Map.empty, r_reachable = True, r_commands = [] \<rparr>"

text \<open>
  A gnark whose prover returns the two proof bytes \<open>ab cd\<close> and whose verifier rejects every
  proof, and one whose verifier accepts every proof.
\<close>

definition rejecting_gnark :: gnark_env where
  "rejecting_gnark =
     \<lparr> g_Compile = None,
       g_loadOrSetupKeys = Inr ([1, 2], [3, 4]),
       g_loadCachedVK = Inr [3, 4],
       g_NewWitness_error = (\<lambda>a. None),
       g_Public_error = (\<lambda>w. None),
       g_Prove = (\<lambda>pk w. Inr [171, 205]),
       g_ReadFrom_error = (\<lambda>bs. None),
       g_Verify = (\<lambda>proof vk w. Some ''pairing check failed'') \<rparr>"

definition accepting_gnark :: gnark_env where
  "accepting_gnark = rejecting_gnark\<lparr> g_Verify := (\<lambda>proof vk w. None) \<rparr>"

definition sample_inputs :: CircuitInputs where
  "sample_inputs =
     \<lparr> in_NullifierHash = ''11'', in_Commitment = ''12'', in_Fqdn = ''13'',
       in_MetadataHashP1 = ''14'', in_MetadataHashP2 = ''15'', in_TrustMethod = ''1'',
       in_Nullifier = ''7'', in_Secret = ''9'' \<rparr>"

text \<open>
  A PTX file for \<open>example.com\<close> with the metadata \<open>{}\<close> (an object without a nonce) and a
  native proof envelope, and an engine environment that decodes it.
\<close>

definition sample_wrapper :: ProofWrapper where
  "sample_wrapper =
     \<lparr> w_Source = ''gnark_native'',
       w_PublicSignals = [''11'', ''12'', ''13'', ''14'', ''15'', ''1''],
       w_Proof = [],
       w_ProofHex = ''abcd'' \<rparr>"

definition sample_ptx :: PtxFile where
  "sample_ptx =
     \<lparr> ptx_TrustMethod = 1,
       ptx_SignedMetadata = ''{}'',
       ptx_Proof = Some \<lparr> pr_ProofSystem = GROTH16, pr_ProofData = [123, 125] \<rparr>,
       ptx_DohDetails = Some ''example.com'' \<rparr>"

definition sample_env :: verifier_env where
  "sample_env =
     \<lparr> e_LoadPTX = (\<lambda>path. Inr sample_ptx),
       e_json_map = (\<lambda>s. Some Map.empty),
       e_json_wrapper = (\<lambda>bs. Some sample_wrapper),
       e_json_signals = (\<lambda>bs. Some (w_PublicSignals sample_wrapper)),
       e_now = 1700000000,
       e_now_nonce = 1700000000,
       e_GetTXT = (\<lambda>hostname. Inr []),
       e_ParseURL_error = (\<lambda>url. None),
       e_DecodeString = (\<lambda>s. Inr [171, 205]),
       e_verifyCircomProof = (\<lambda>proof signals. ZkError ''Verification returned false''),
       e_gnark = accepting_gnark \<rparr>"

definition sample_opts :: VerificationOptions where
  "sample_opts =
     \<lparr> FilePath = ''token.ptx'', IntendedScope = [], IntendedAudience = [],
       StrictMode = False, RedisURL = ''redis://localhost:6379'', Verbose = False \<rparr>"

(*DEFS-END*)

section \<open>Basic facts about results, reads and loops\<close>

lemma bindE_Inr [simp]: "bindE (Inr x) f = f x"
  by (simp add: bindE_def)

lemma bindE_Inl [simp]: "bindE (Inl e) f = Inl e"
  by (simp add: bindE_def)

lemma index_in_range [simp]: "i < length xs \<Longrightarrow> index xs i = Inr (xs ! i)"
  by (simp add: index_def)

lemma index_out_of_range [simp]: "\<not> i < length xs \<Longrightarrow> index xs i = Inl IndexOutOfRange"
  by (simp add: index_def)

lemma foldE_append: "foldE f (xs @ ys) s = bindE (foldE f xs s) (foldE f ys)"
  by (induction xs arbitrary: s) (auto simp: bindE_def split: sum.splits)

lemma foldE_cong:
  "(\<And>x s. x \<in> set xs \<Longrightarrow> f x s = g x s) \<Longrightarrow> foldE f xs s = foldE g xs s"
  by (induction xs arbitrary: s) (auto simp: bindE_def split: sum.splits)

lemma foldE_pure:
  assumes "\<And>x s. x \<in> set xs \<Longrightarrow> I s \<Longrightarrow> f x s = Inr (g x s) \<and> I (g x s)" and "I s"
  shows "foldE f xs s = Inr (fold g xs s) \<and> I (fold g xs s)"
  using assms
proof (induction xs arbitrary: s)
  case Nil
  then show ?case by simp
next
  case (Cons x xs)
  have step: "f x s = Inr (g x s)" "I (g x s)"
    using Cons.prems(1) [of x s] Cons.prems(2) by simp_all
  have "foldE f xs (g x s) = Inr (fold g xs (g x s)) \<and> I (fold g xs (g x s))"
    by (rule Cons.IH) (use Cons.prems(1) step(2) in auto)
  with step show ?case by simp
qed

lemma fold_update_upt:
  "n \<le> length st \<Longrightarrow>
   fold (\<lambda>i s. s[i := h i (s ! i)]) [0..<n] st =
     map (\<lambda>i. if i < n then h i (st ! i) else st ! i) [0..<length st]"
proof (induction n)
  case 0
  then show ?case by (simp add: map_nth)
next
  case (Suc n)
  let ?m = "map (\<lambda>i. if i < n then h i (st ! i) else st ! i) [0..<length st]"
  have n: "n < length st" using Suc.prems by simp
  have IH: "fold (\<lambda>i s. s[i := h i (s ! i)]) [0..<n] st = ?m"
    using Suc.IH n by simp
  have "fold (\<lambda>i s. s[i := h i (s ! i)]) [0..<Suc n] st = ?m[n := h n (?m ! n)]"
    by (simp add: IH)
  also have "\<dots> = map (\<lambda>i. if i < Suc n then h i (st ! i) else st ! i) [0..<length st]"
  proof (rule nth_equalityI)
    show "length (?m[n := h n (?m ! n)]) =
          length (map (\<lambda>i. if i < Suc n then h i (st ! i) else st ! i) [0..<length st])"
      by simp
  next
    fix i assume "i < length (?m[n := h n (?m ! n)])"
    then have i: "i < length st" by simp
    show "?m[n := h n (?m ! n)] ! i =
          map (\<lambda>i. if i < Suc n then h i (st ! i) else st ! i) [0..<length st] ! i"
      using i n by (cases "i = n") (simp_all add: less_Suc_eq)
  qed
  finally show ?case .
qed

lemma fold_update_all:
  "length st = t \<Longrightarrow>
   fold (\<lambda>i s. s[i := h i (s ! i)]) [0..<t] st = map (\<lambda>i. h i (st ! i)) [0..<t]"
  by (simp add: fold_update_upt)

lemma length_fold_update: "length (fold (\<lambda>i s. s[i := h i s]) xs st) = length st"
  by (induction xs arbitrary: st) auto

section \<open>The scalar rounds compute the specification's rounds\<close>

lemma sBox_pow5: "sBox x = spec_pow5 x"
proof -
  let ?p = SNARK_FIELD_SIZE
  have e: "x ^ 5 = (x * x) * (x * x) * x" by (simp add: eval_nat_numeral)
  have "(x * x mod ?p) * (x * x mod ?p) mod ?p = (x * x) * (x * x) mod ?p"
    by (rule mod_mult_eq)
  then have "((x * x mod ?p) * (x * x mod ?p) mod ?p) * x mod ?p = (x * x) * (x * x) * x mod ?p"
    by (metis mod_mult_left_eq)
  then show ?thesis
    by (simp add: sBox_def spec_pow5_def fr_mul_def Let_def e)
qed

lemma sBoxAll_spec:
  assumes "length st = t"
  shows "sBoxAll t st = Inr (map spec_pow5 st)"
proof -
  let ?g = "\<lambda>i s. s[i := sBox (s ! i)]"
  have "foldE (\<lambda>i st. bindE (index st i) (\<lambda>x. Inr (st[i := sBox x]))) [0..<t] st
        = Inr (fold ?g [0..<t] st) \<and> length (fold ?g [0..<t] st) = t"
    by (rule foldE_pure [where I = "\<lambda>s. length s = t"]) (use assms in auto)
  moreover have "fold ?g [0..<t] st = map (\<lambda>i. sBox (st ! i)) [0..<t]"
    by (rule fold_update_all [OF assms, where h = "\<lambda>i x. sBox x"])
  moreover have "map (\<lambda>i. sBox (st ! i)) [0..<t] = map spec_pow5 st"
    using assms by (intro nth_equalityI) (simp_all add: sBox_pow5)
  ultimately show ?thesis by (simp add: sBoxAll_def for_loop_def)
qed

lemma ark_spec:
  assumes "length st = t" and "r + t \<le> length c"
  shows "ark c t st r = Inr (spec_add_constants c r t st)"
proof -
  let ?g = "\<lambda>i s. s[i := fr_add (s ! i) (getFr (c ! (i + r)))]"
  have "foldE (\<lambda>i st. bindE (index st i) (\<lambda>x.
                bindE (index c (i + r)) (\<lambda>k. Inr (st[i := fr_add x (getFr k)])))) [0..<t] st
        = Inr (fold ?g [0..<t] st) \<and> length (fold ?g [0..<t] st) = t"
    by (rule foldE_pure [where I = "\<lambda>s. length s = t"]) (use assms in auto)
  moreover have "fold ?g [0..<t] st = map (\<lambda>i. fr_add (st ! i) (getFr (c ! (i + r)))) [0..<t]"
    by (rule fold_update_all [OF assms(1), where h = "\<lambda>i x. fr_add x (getFr (c ! (i + r)))"])
  moreover have "map (\<lambda>i. fr_add (st ! i) (getFr (c ! (i + r)))) [0..<t] = spec_add_constants c r t st"
    by (simp add: spec_add_constants_def fr_add_def getFr_def SetBigInt_def mod_add_right_eq add.commute)
  ultimately show ?thesis by (simp add: ark_def for_loop_def)
qed

lemma length_spec_add_constants [simp]: "length (spec_add_constants c r t st) = t"
  by (simp add: spec_add_constants_def)

lemma length_spec_dense_mix [simp]: "length (spec_dense_mix M t st) = t"
  by (simp add: spec_dense_mix_def)

lemma length_spec_sparse_mix [simp]: "length (spec_sparse_mix S t r st) = t"
  by (simp add: spec_sparse_mix_def Let_def)

lemma fold_dot:
  "fold (\<lambda>j acc. fr_add acc (fr_mul (x j) (getFr (k j)))) [0..<n] 0
     = (\<Sum>j<n. x j * k j) mod SNARK_FIELD_SIZE"
proof (induction n)
  case 0
  then show ?case by simp
next
  case (Suc n)
  then show ?case
    by (simp add: fr_add_def fr_mul_def getFr_def SetBigInt_def mod_simps)
qed

lemma dot_loop:
  assumes "\<And>j. j < t \<Longrightarrow> f j = (\<lambda>acc. Inr (fr_add acc (fr_mul (x j) (getFr (k j)))))"
  shows "foldE f [0..<t] 0 = Inr ((\<Sum>j<t. x j * k j) mod SNARK_FIELD_SIZE)"
proof -
  have "foldE f [0..<t] 0 = Inr (fold (\<lambda>j acc. fr_add acc (fr_mul (x j) (getFr (k j)))) [0..<t] 0) \<and> True"
    by (rule foldE_pure [where I = "\<lambda>_. True"]) (use assms in auto)
  then show ?thesis by (simp add: fold_dot)
qed

lemma mix_spec:
  assumes "length st = t" and "t \<le> length M" and "\<And>j. j < t \<Longrightarrow> t \<le> length (M ! j)"
  shows "mix t st M = Inr (spec_dense_mix M t st)"
proof -
  let ?h = "\<lambda>i. (\<Sum>j<t. st ! j * (M ! j ! i)) mod SNARK_FIELD_SIZE"
  let ?g = "\<lambda>i (res :: int list). res[i := ?h i]"
  let ?body = "\<lambda>i result.
          bindE (for_loop 0 t
                   (\<lambda>j acc. bindE (index st j) (\<lambda>x.
                             bindE (index M j) (\<lambda>row.
                             bindE (index row i) (\<lambda>k.
                               Inr (fr_add acc (fr_mul x (getFr k)))))))
                   0)
                (\<lambda>acc. Inr (result[i := acc]))"
  have inner: "for_loop 0 t
                   (\<lambda>j acc. bindE (index st j) (\<lambda>x.
                             bindE (index M j) (\<lambda>row.
                             bindE (index row i) (\<lambda>k.
                               Inr (fr_add acc (fr_mul x (getFr k)))))))
                   0 = Inr (?h i)" if "i < t" for i
    unfolding for_loop_def
    by (rule dot_loop [where x = "\<lambda>j. st ! j" and k = "\<lambda>j. M ! j ! i"])
       (use assms that in \<open>auto simp: fun_eq_iff less_le_trans\<close>)
  have "foldE ?body [0..<t] (replicate t 0)
        = Inr (fold ?g [0..<t] (replicate t 0)) \<and> length (fold ?g [0..<t] (replicate t 0)) = t"
    by (rule foldE_pure [where I = "\<lambda>s. length s = t"]) (auto simp: inner)
  moreover have "fold ?g [0..<t] (replicate t 0) = map (\<lambda>i. ?h i) [0..<t]"
    by (rule fold_update_all [where h = "\<lambda>i x. ?h i"]) simp
  ultimately show ?thesis by (simp add: mix_def for_loop_def spec_dense_mix_def)
qed

lemma fold_update_from1:
  "n \<le> length st \<Longrightarrow>
   fold (\<lambda>i s. s[i := h i]) [Suc 0..<n] st =
     map (\<lambda>i. if Suc 0 \<le> i \<and> i < n then h i else st ! i) [0..<length st]"
proof (induction n)
  case 0
  then show ?case by (simp add: map_nth)
next
  case (Suc n)
  let ?m = "map (\<lambda>i. if Suc 0 \<le> i \<and> i < n then h i else st ! i) [0..<length st]"
  have n: "n < length st" using Suc.prems by simp
  have IH: "fold (\<lambda>i s. s[i := h i]) [Suc 0..<n] st = ?m"
    using Suc.IH n by simp
  show ?case
  proof (cases "Suc 0 \<le> n")
    case False
    then have "n = 0" by simp
    then show ?thesis by (intro nth_equalityI) auto
  next
    case True
    then have "[Suc 0..<Suc n] = [Suc 0..<n] @ [n]" by simp
    then have "fold (\<lambda>i s. s[i := h i]) [Suc 0..<Suc n] st = ?m[n := h n]"
      by (simp add: IH)
    also have "\<dots> = map (\<lambda>i. if Suc 0 \<le> i \<and> i < Suc n then h i else st ! i) [0..<length st]"
    proof (rule nth_equalityI)
      show "length (?m[n := h n]) =
            length (map (\<lambda>i. if Suc 0 \<le> i \<and> i < Suc n then h i else st ! i) [0..<length st])"
        by simp
    next
      fix i assume "i < length (?m[n := h n])"
      then have i: "i < length st" by simp
      show "?m[n := h n] ! i =
            map (\<lambda>i. if Suc 0 \<le> i \<and> i < Suc n then h i else st ! i) [0..<length st] ! i"
        using i n True by (cases "i = n") (simp_all add: less_Suc_eq)
    qed
    finally show ?thesis .
  qed
qed

lemma mixS_spec:
  assumes "length st = t" and "0 < t" and "(2 * t - 1) * r + (2 * t - 1) \<le> length S"
  shows "mixS S t st r = Inr (spec_sparse_mix S t r st)"
proof -
  let ?off = "(t * 2 - 1) * r"
  let ?r0 = "(\<Sum>k<t. st ! k * S ! (?off + k)) mod SNARK_FIELD_SIZE"
  let ?h = "\<lambda>i. fr_add (st ! i) (fr_mul (st ! 0) (getFr (S ! (?off + t + i - 1))))"
  let ?g = "\<lambda>i (res :: int list). res[i := ?h i]"
  let ?init = "(replicate t (0::int))[0 := ?r0]"
  have bound: "?off + (2 * t - 1) \<le> length S"
    using assms(3) by (simp add: mult.commute)
  have first: "for_loop 0 t
               (\<lambda>i acc. bindE (index st i) (\<lambda>x.
                         bindE (index S (?off + i)) (\<lambda>k.
                           Inr (fr_add acc (fr_mul x (getFr k))))))
               0 = Inr ?r0"
    unfolding for_loop_def
    by (rule dot_loop [where x = "\<lambda>j. st ! j" and k = "\<lambda>j. S ! (?off + j)"])
       (use assms(1,2) bound in \<open>auto simp: fun_eq_iff\<close>)
  have "foldE (\<lambda>i result. bindE (index st i) (\<lambda>x.
                          bindE (index st 0) (\<lambda>x0.
                          bindE (index S (?off + t + i - 1)) (\<lambda>k.
                            Inr (result[i := fr_add x (fr_mul x0 (getFr k))])))))
          [Suc 0..<t] ?init
        = Inr (fold ?g [Suc 0..<t] ?init) \<and> length (fold ?g [Suc 0..<t] ?init) = t"
    by (rule foldE_pure [where I = "\<lambda>s. length s = t"])
       (use assms(1,2) bound in auto)
  moreover have "fold ?g [Suc 0..<t] ?init
      = map (\<lambda>i. if Suc 0 \<le> i \<and> i < t then ?h i else ?init ! i) [0..<length ?init]"
    by (rule fold_update_from1) simp
  moreover have "map (\<lambda>i. if Suc 0 \<le> i \<and> i < t then ?h i else ?init ! i) [0..<length ?init]
      = spec_sparse_mix S t r st"
    using assms(2)
    by (auto simp: spec_sparse_mix_def Let_def fr_add_def fr_mul_def getFr_def SetBigInt_def
          mod_simps mult.commute)
  ultimately have second: "for_loop (Suc 0) t
             (\<lambda>i result. bindE (index st i) (\<lambda>x.
                          bindE (index st 0) (\<lambda>x0.
                          bindE (index S (?off + t + i - 1)) (\<lambda>k.
                            Inr (result[i := fr_add x (fr_mul x0 (getFr k))])))))
             ?init = Inr (spec_sparse_mix S t r st)"
    unfolding for_loop_def by (simp only:)
  show ?thesis
    unfolding mixS_def Let_def One_nat_def first [unfolded One_nat_def] bindE_Inr second [unfolded One_nat_def] ..
qed

lemma full_round_spec:
  assumes "length st = t" and "off + t \<le> length c"
    and "t \<le> length M" and "\<And>j. j < t \<Longrightarrow> t \<le> length (M ! j)"
  shows "full_round c t M off st = Inr (spec_full_round c M t off st)"
  using assms
  by (simp add: full_round_def spec_full_round_def sBoxAll_spec ark_spec mix_spec)

lemma length_spec_full_round [simp]: "length (spec_full_round c M t off st) = t"
  by (simp add: spec_full_round_def)

lemma partial_round_spec:
  assumes "length st = t" and "0 < t" and "(RF div 2 + 1) * t + r < length c"
    and "(2 * t - 1) * r + (2 * t - 1) \<le> length S"
  shows "partial_round c S t RF r st = Inr (spec_partial_round c S t RF r st)"
proof -
  have "fr_add (sBox (st ! 0)) (getFr (c ! ((RF div 2 + 1) * t + r)))
        = (spec_pow5 (st ! 0) + c ! ((RF div 2 + 1) * t + r)) mod SNARK_FIELD_SIZE"
    by (simp add: fr_add_def getFr_def SetBigInt_def sBox_pow5 mod_simps)
  then show ?thesis
    using assms
    by (simp add: partial_round_def spec_partial_round_def Let_def mixS_spec)
qed

lemma length_spec_partial_round [simp]: "length (spec_partial_round c S t RF r st) = t"
  by (simp add: spec_partial_round_def Let_def)

lemma rounds_loop:
  assumes "length st = t"
    and "\<And>r s. r < n \<Longrightarrow> length s = t \<Longrightarrow> f r s = Inr (g r s) \<and> length (g r s) = t"
  shows "for_loop 0 n f st = Inr (fold g [0..<n] st) \<and> length (fold g [0..<n] st) = t"
  unfolding for_loop_def
  by (rule foldE_pure [where I = "\<lambda>s. length s = t"]) (use assms in auto)

lemma PoseidonHash_core:
  fixes tab :: "nat \<Rightarrow> tables" and inputs :: "int list"
  defines "t \<equiv> length inputs + 1"
  assumes sup: "t = 2 \<or> t = 4 \<or> t = 5" and ok: "tables_ok t (tab t)"
  shows "PoseidonHash tab inputs = Inr (spec_Poseidon (tab t) inputs)"
proof -
  let ?c = "tblC (tab t)" and ?M = "tblM (tab t)" and ?P = "tblP (tab t)" and ?S = "tblS (tab t)"
  let ?RP = "spec_RP t"
  have tpos: "0 < t" using sup by auto
  have rp: "index nRoundsP_table (t - 2) = Inr ?RP"
    using sup by (auto simp: spec_RP_def index_def nRoundsP_table_def)
  have lc: "length ?c = 8 * t + ?RP" and lS: "length ?S = (2 * t - 1) * ?RP"
    and lM: "t \<le> length ?M" and lP: "t \<le> length ?P"
    using ok by (simp_all add: tables_ok_def)
  have rM: "t \<le> length (?M ! j)" and rP: "t \<le> length (?P ! j)" if "j < t" for j
    using ok that by (simp_all add: tables_ok_def list_all_length)
  define st1 where "st1 = spec_add_constants ?c 0 t (0 # inputs)"
  define st2 where "st2 = fold (\<lambda>r. spec_full_round ?c ?M t ((r + 1) * t)) [0..<8 div 2 - 1] st1"
  define st3 where "st3 = spec_full_round ?c ?P t ((8 div 2) * t) st2"
  define st4 where "st4 = fold (spec_partial_round ?c ?S t 8) [0..<?RP] st3"
  define st5 where "st5 = fold (\<lambda>r. spec_full_round ?c ?M t ((8 div 2 + 1) * t + ?RP + r * t))
                  [0..<8 div 2 - 1] st4"
  define st6 where "st6 = spec_dense_mix ?M t (map spec_pow5 st5)"
  have l0: "length (0 # inputs) = t" by (simp add: t_def)
  have "0 + t \<le> length ?c" by (simp add: lc)
  then have s1: "ark ?c t (0 # inputs) 0 = Inr st1"
    unfolding st1_def using l0 by (rule ark_spec [rotated])
  have l1: "length st1 = t" by (simp add: st1_def)
  have s2: "for_loop 0 (8 div 2 - 1) (\<lambda>r. full_round ?c t ?M ((r + 1) * t)) st1 = Inr st2
            \<and> length st2 = t"
    unfolding st2_def
  proof (rule rounds_loop [OF l1])
    fix r :: nat and s :: "int list" assume r: "r < 8 div 2 - 1" and s: "length s = t"
    have "(r + 1) * t \<le> 3 * t" using r by (intro mult_le_mono1) simp
    then have "(r + 1) * t + t \<le> length ?c" unfolding lc by linarith
    then show "full_round ?c t ?M ((r + 1) * t) s = Inr (spec_full_round ?c ?M t ((r + 1) * t) s)
               \<and> length (spec_full_round ?c ?M t ((r + 1) * t) s) = t"
      using s lM rM by (simp add: full_round_spec)
  qed
  have s3: "full_round ?c t ?P ((8 div 2) * t) st2 = Inr st3"
    unfolding st3_def using s2 lP rP by (intro full_round_spec) (simp_all add: lc)
  have l3: "length st3 = t" by (simp add: st3_def)
  have s4: "for_loop 0 ?RP (partial_round ?c ?S t 8) st3 = Inr st4 \<and> length st4 = t"
    unfolding st4_def
  proof (rule rounds_loop [OF l3])
    fix r :: nat and s :: "int list" assume r: "r < ?RP" and s: "length s = t"
    have "(2 * t - 1) * (r + 1) \<le> (2 * t - 1) * ?RP" using r by (intro mult_le_mono2) simp
    then have "(2 * t - 1) * r + (2 * t - 1) \<le> length ?S"
      unfolding lS by (simp only: add_mult_distrib2 mult_1_right)
    moreover have "(8 div 2 + 1) * t + r < length ?c" using r unfolding lc by simp
    ultimately show "partial_round ?c ?S t 8 r s = Inr (spec_partial_round ?c ?S t 8 r s)
               \<and> length (spec_partial_round ?c ?S t 8 r s) = t"
      using s tpos by (simp add: partial_round_spec)
  qed
  have s5: "for_loop 0 (8 div 2 - 1)
              (\<lambda>r. full_round ?c t ?M ((8 div 2 + 1) * t + ?RP + r * t)) st4 = Inr st5
            \<and> length st5 = t"
    unfolding st5_def
  proof (rule rounds_loop)
    show "length st4 = t" using s4 by simp
  next
    fix r :: nat and s :: "int list" assume r: "r < 8 div 2 - 1" and s: "length s = t"
    have "r * t \<le> 2 * t" using r by (intro mult_le_mono1) simp
    then have "(8 div 2 + 1) * t + ?RP + r * t + t \<le> length ?c" unfolding lc by simp
    then show "full_round ?c t ?M ((8 div 2 + 1) * t + ?RP + r * t) s
                 = Inr (spec_full_round ?c ?M t ((8 div 2 + 1) * t + ?RP + r * t) s)
               \<and> length (spec_full_round ?c ?M t ((8 div 2 + 1) * t + ?RP + r * t) s) = t"
      using s lM rM by (simp add: full_round_spec)
  qed
  have s6: "sBoxAll t st5 = Inr (map spec_pow5 st5)"
    using s5 by (simp add: sBoxAll_spec)
  have s7: "mix t (map spec_pow5 st5) ?M = Inr st6"
    unfolding st6_def using s5 lM rM by (intro mix_spec) simp_all
  have s8: "index st6 0 = Inr (st6 ! 0)"
    using tpos by (simp add: st6_def)
  have not_unsupported: "\<not> (t \<noteq> 2 \<and> t \<noteq> 4 \<and> t \<noteq> 5)" using sup by simp
  have "PoseidonHash tab inputs = Inr (st6 ! 0)"
    unfolding PoseidonHash_def Let_def t_def [symmetric]
    by (simp only: not_unsupported if_False rp bindE_Inr s1 s2 s3 s4 s5 s6 s7 s8)
  moreover have "spec_Poseidon (tab t) inputs = st6 ! 0"
    unfolding spec_Poseidon_def Let_def t_def [symmetric]
    by (simp only: st1_def st2_def st3_def st4_def st5_def st6_def)
  ultimately show ?thesis by simp
qed

section \<open>The circuit gates evaluated in the field\<close>

lemma field_api_simps [simp]:
  "api_Add field_api = fr_add" "api_Mul field_api = fr_mul" "api_Const field_api = SetBigInt"
  by (simp_all add: field_api_def)

lemma Hasher_sBox_field [simp]: "Hasher_sBox field_api x = sBox x"
  by (simp add: Hasher_sBox_def sBox_def Let_def)

lemma Hasher_sBoxAll_field [simp]: "Hasher_sBoxAll field_api t st = sBoxAll t st"
  by (simp add: Hasher_sBoxAll_def sBoxAll_def)

lemma bindE_index_commute:
  "bindE (index xs i) (\<lambda>x. bindE (index ys j) (\<lambda>y. f x y))
   = bindE (index ys j) (\<lambda>y. bindE (index xs i) (\<lambda>x. f x y))"
  by (simp add: index_def)

lemma Hasher_arkAtOffset_field:
  "Hasher_arkAtOffset field_api ps st off = ark (par_C ps) (par_T ps) st off"
  by (simp add: Hasher_arkAtOffset_def ark_def Let_def getFr_def
        bindE_index_commute [of "par_C ps"] add.commute)

lemma Hasher_mix_field:
  "Hasher_mix field_api ps st m = mix (par_T ps) st m"
proof -
  have "(\<lambda>j acc. bindE (index m j) (\<lambda>row. bindE (index row i) (\<lambda>k.
            bindE (index st j) (\<lambda>x. Inr (fr_add acc (fr_mul x (SetBigInt k)))))))
      = (\<lambda>j acc. bindE (index st j) (\<lambda>x. bindE (index m j) (\<lambda>row.
            bindE (index row i) (\<lambda>k. Inr (fr_add acc (fr_mul x (SetBigInt k)))))))" for i
    by (intro ext) (simp add: index_def)
  then show ?thesis
    by (simp add: Hasher_mix_def mix_def Let_def getFr_def SetBigInt_def [of 0])
qed

lemma Hasher_mixS_field:
  "Hasher_mixS field_api ps st r = mixS (par_S ps) (par_T ps) st r"
proof -
  let ?S = "par_S ps" and ?t = "par_T ps"
  have a: "(\<lambda>i acc. bindE (index ?S (off + i)) (\<lambda>s. bindE (index st i) (\<lambda>x.
               Inr (fr_add acc (fr_mul x (SetBigInt s))))))
         = (\<lambda>i acc. bindE (index st i) (\<lambda>x. bindE (index ?S (off + i)) (\<lambda>k.
               Inr (fr_add acc (fr_mul x (SetBigInt k))))))" for off
    by (intro ext) (simp add: index_def)
  have b: "(\<lambda>i result. bindE (index ?S (off + ?t + i - Suc 0)) (\<lambda>s. bindE (index st 0) (\<lambda>x0.
               bindE (index st i) (\<lambda>x. Inr (result[i := fr_add x (fr_mul x0 (SetBigInt s))])))))
         = (\<lambda>i result. bindE (index st i) (\<lambda>x. bindE (index st 0) (\<lambda>x0.
               bindE (index ?S (off + ?t + i - Suc 0)) (\<lambda>k.
                 Inr (result[i := fr_add x (fr_mul x0 (SetBigInt k))])))))" for off
    by (intro ext) (simp add: index_def)
  show ?thesis
    unfolding Hasher_mixS_def mixS_def Let_def getFr_def
    by (simp add: a b SetBigInt_def [of 0])
qed

lemma Hasher_full_round_field:
  "Hasher_full_round field_api ps m off = full_round (par_C ps) (par_T ps) m off"
  by (intro ext) (simp add: Hasher_full_round_def full_round_def Hasher_arkAtOffset_field Hasher_mix_field)

lemma Hasher_partial_round_field:
  "Hasher_partial_round field_api ps
     = partial_round (par_C ps) (par_S ps) (par_T ps) (par_NRoundsF ps)"
  by (intro ext) (simp add: Hasher_partial_round_def partial_round_def Let_def Hasher_mixS_field
        getFr_def)

lemma GetParams_supported:
  assumes "t = 2 \<or> t = 4 \<or> t = 5"
  shows "GetParams tab t = Inr \<lparr> par_T = t, par_NRoundsF = 8, par_NRoundsP = spec_RP t,
                par_C = tblC (tab t), par_M = tblM (tab t),
                par_P = tblP (tab t), par_S = tblS (tab t) \<rparr>"
  using assms by (auto simp: GetParams_def spec_RP_def nRoundsP_table_def index_def)

lemma circuit_equals_scalar:
  fixes inputs :: "int list"
  assumes sup: "length inputs + 1 = 2 \<or> length inputs + 1 = 4 \<or> length inputs + 1 = 5"
    and same: "tabC (length inputs + 1) = tabS (length inputs + 1)"
  shows "bindE (NewHasher tabC field_api (length inputs)) (\<lambda>h. Hasher_Hash h inputs)
         = PoseidonHash tabS inputs"
proof -
  define t where "t = length inputs + 1"
  have sup': "t = 2 \<or> t = 4 \<or> t = 5" using sup by (simp add: t_def)
  have rp: "index nRoundsP_table (t - 2) = Inr (spec_RP t)"
    using sup' by (auto simp: spec_RP_def index_def nRoundsP_table_def)
  have not_unsupported: "\<not> (t \<noteq> 2 \<and> t \<noteq> 4 \<and> t \<noteq> 5)" using sup' by simp
  have len: "length inputs = t - Suc 0" by (simp add: t_def)
  show ?thesis
    unfolding NewHasher_def PoseidonHash_def Let_def t_def [symmetric]
    by (simp add: GetParams_supported [OF sup'] Hasher_Hash_def Let_def len
          not_unsupported rp Hasher_arkAtOffset_field Hasher_full_round_field
          Hasher_partial_round_field Hasher_mix_field same [folded t_def] SetBigInt_def [of 0])
qed

lemma spec_dense_mix_range:
  assumes "0 < t"
  shows "0 \<le> spec_dense_mix M t st ! 0 \<and> spec_dense_mix M t st ! 0 < SNARK_FIELD_SIZE"
proof -
  have "0 < SNARK_FIELD_SIZE" by (simp add: SNARK_FIELD_SIZE_def)
  then show ?thesis using assms by (simp add: spec_dense_mix_def)
qed

lemma spec_Poseidon_range:
  "0 \<le> spec_Poseidon tb inputs \<and> spec_Poseidon tb inputs < SNARK_FIELD_SIZE"
  unfolding spec_Poseidon_def Let_def by (rule spec_dense_mix_range) simp

lemma sample_tables_ok: "tables_ok t (sample_tables t)"
  by (simp add: tables_ok_def sample_tables_def list_all_iff)

section \<open>Claims about Poseidon\<close>

text \<open>
  Claim C3. For an input list of supported arity (\<open>t = 2, 4, 5\<close>), the in-circuit hasher,
  with its \<open>Add\<close> and \<open>Mul\<close> gates evaluated in the field on the same inputs, returns the same
  field element as the scalar \<open>PoseidonHash\<close>, provided the two packages carry the same
  constant tables for that width.
\<close>

theorem C3_scalar_equals_circuit:
  fixes inputs :: "int list"
  assumes "length inputs + 1 = 2 \<or> length inputs + 1 = 4 \<or> length inputs + 1 = 5"
    and "tabC (length inputs + 1) = tabS (length inputs + 1)"
  shows "PoseidonHash tabS inputs
         = bindE (NewHasher tabC field_api (length inputs)) (\<lambda>h. Hasher_Hash h inputs)"
  using circuit_equals_scalar [of inputs tabC tabS] assms by simp

theorem C3_scalar_equals_circuit_witness:
  "PoseidonHash sample_tables [7, 11, 13]
   = bindE (NewHasher sample_tables field_api (length [7, 11, 13 :: int]))
       (\<lambda>h. Hasher_Hash h [7, 11, 13])"
  using C3_scalar_equals_circuit [of "[7, 11, 13]" sample_tables sample_tables] by simp

text \<open>
  Claim C4. For every supported arity and well-sized tables, the scalar \<open>PoseidonHash\<close>
  returns cell 0 of the state reached by the specification's round sequence on
  \<open>[0, in_0, ...]\<close>: initial constants, \<open>R_F/2 - 1\<close> full rounds with \<open>M\<close>, the middle full
  round with \<open>P\<close>, \<open>R_P\<close> partial rounds with the sparse mix at offset \<open>(2t - 1) * r\<close>,
  \<open>R_F/2 - 1\<close> full rounds with \<open>M\<close>, a last S-box layer and mix with \<open>M\<close>; every dense mix is
  \<open>result[i] = \<Sum>j. state[j] * M[j][i]\<close>.
\<close>

theorem C4_PoseidonHash_round_sequence:
  fixes inputs :: "int list"
  assumes "length inputs + 1 = 2 \<or> length inputs + 1 = 4 \<or> length inputs + 1 = 5"
    and "tables_ok (length inputs + 1) (tab (length inputs + 1))"
  shows "PoseidonHash tab inputs = Inr (spec_Poseidon (tab (length inputs + 1)) inputs)"
  using assms by (rule PoseidonHash_core)

theorem C4_PoseidonHash_round_sequence_witness:
  "tables_ok 4 (sample_tables 4) \<and>
   PoseidonHash sample_tables [7, 11, 13] = Inr (spec_Poseidon (sample_tables 4) [7, 11, 13])"
proof -
  have four: "length [7, 11, 13 :: int] + 1 = 4" by simp
  have ok: "tables_ok 4 (sample_tables 4)" by (rule sample_tables_ok)
  show ?thesis
    using C4_PoseidonHash_round_sequence [of "[7, 11, 13]" sample_tables, unfolded four] ok
    by simp
qed

text \<open>
  Claim C6, as the code has it. With well-sized tables the scalar hash returns a field
  element for every input list of 1, 3 or 4 elements, and for every other length (0, 2,
  5 and more) it fails with the unsupported-width error; there is no other outcome.
  The claim's arity 2 (\<open>t = 3\<close>) is not supported.
\<close>

theorem C6_PoseidonHash_outcomes:
  fixes inputs :: "int list"
  assumes "tables_ok 2 (tab 2)" and "tables_ok 4 (tab 4)" and "tables_ok 5 (tab 5)"
  shows "(length inputs \<in> {1, 3, 4} \<longrightarrow>
            (\<exists>y. PoseidonHash tab inputs = Inr y \<and> 0 \<le> y \<and> y < SNARK_FIELD_SIZE)) \<and>
         (length inputs \<notin> {1, 3, 4} \<longrightarrow>
            PoseidonHash tab inputs = Inl (UnsupportedInputs (length inputs) (length inputs + 1)))"
proof (intro conjI impI)
  assume "length inputs \<in> {1, 3, 4}"
  then have sup: "length inputs + 1 = 2 \<or> length inputs + 1 = 4 \<or> length inputs + 1 = 5"
    by auto
  then have ok: "tables_ok (length inputs + 1) (tab (length inputs + 1))"
    using assms by (elim disjE) (simp_all only:)
  have eq: "PoseidonHash tab inputs = Inr (spec_Poseidon (tab (length inputs + 1)) inputs)"
    using sup ok by (rule PoseidonHash_core)
  have "0 \<le> spec_Poseidon (tab (length inputs + 1)) inputs
        \<and> spec_Poseidon (tab (length inputs + 1)) inputs < SNARK_FIELD_SIZE"
    by (rule spec_Poseidon_range)
  with eq show "\<exists>y. PoseidonHash tab inputs = Inr y \<and> 0 \<le> y \<and> y < SNARK_FIELD_SIZE"
    by blast
next
  assume "length inputs \<notin> {1, 3, 4}"
  then show "PoseidonHash tab inputs
             = Inl (UnsupportedInputs (length inputs) (length inputs + 1))"
    by (simp add: PoseidonHash_def Let_def)
qed

theorem C6_PoseidonHash_outcomes_witness:
  "tables_ok 2 (sample_tables 2) \<and> tables_ok 4 (sample_tables 4) \<and> tables_ok 5 (sample_tables 5)
   \<and> (\<exists>y. PoseidonHash sample_tables [7] = Inr y \<and> 0 \<le> y \<and> y < SNARK_FIELD_SIZE)
   \<and> PoseidonHash sample_tables [] = Inl (UnsupportedInputs 0 1)"
  using C6_PoseidonHash_outcomes [of sample_tables "[7]"]
        C6_PoseidonHash_outcomes [of sample_tables "[]"] sample_tables_ok
  by simp

theorem C6_arity_two_counterexample:
  "PoseidonHash sample_tables [7, 11] = Inl (UnsupportedInputs 2 3)"
  by (simp add: PoseidonHash_def Let_def)

section \<open>The replay store\<close>

lemma CheckAndSetNonce_expired:
  "expirationTimestamp <s now \<Longrightarrow>
   CheckAndSetNonce now st nonce expirationTimestamp = (st, False, None)"
  by (simp add: CheckAndSetNonce_def)

lemma CheckAndSetNonce_not_expired:
  assumes "\<not> expirationTimestamp <s now" and "r_reachable st"
  shows "CheckAndSetNonce now st nonce expirationTimestamp =
           (if r_data st nonce = None
            then (st\<lparr> r_commands :=
                        r_commands st @ [(nonce, ''1'', sint ((expirationTimestamp - now) * time_Second))],
                      r_data := (r_data st)(nonce \<mapsto>
                        (''1'', sint ((expirationTimestamp - now) * time_Second))) \<rparr>,
                  True, None)
            else (st\<lparr> r_commands :=
                        r_commands st @ [(nonce, ''1'', sint ((expirationTimestamp - now) * time_Second))] \<rparr>,
                  False, None))"
  using assms by (simp add: CheckAndSetNonce_def SetNX_def Let_def)

text \<open>
  As long as the expiration is at most 9223372036 seconds ahead, the duration handed to the
  store is the difference in seconds.
\<close>

lemma ttl_in_range:
  fixes expirationTimestamp now :: "64 word"
  assumes "0 \<le> sint expirationTimestamp - sint now"
    and "sint expirationTimestamp - sint now \<le> 9223372036"
  shows "sint ((expirationTimestamp - now) * time_Second)
         = (sint expirationTimestamp - sint now) * 1000000000"
proof -
  let ?d = "sint expirationTimestamp - sint now"
  have d: "sint (expirationTimestamp - now) = ?d"
    unfolding sint_word_diff
    by (rule signed_take_bit_int_eq_self) (use assms in simp_all)
  have s: "sint time_Second = 1000000000"
    by (simp add: time_Second_def)
  have "sint ((expirationTimestamp - now) * time_Second)
        = signed_take_bit 63 (?d * 1000000000)"
    by (simp add: sint_word_mult d s)
  also have "\<dots> = ?d * 1000000000"
    by (rule signed_take_bit_int_eq_self) (use assms in simp_all)
  finally show ?thesis .
qed

text \<open>
  Claim C9, at an input where the code departs from it. The clock reads 1700000000 and the
  nonce \<open>abc\<close> expires 18446744074 seconds later (at 20146744074). The claim's time-to-live
  is 18446744074 seconds; the code multiplies by \<open>10^9\<close> in \<open>int64\<close>, the product wraps, and
  the key is stored with a time-to-live of 290448384 nanoseconds.
\<close>

theorem C9_ttl_wraps_for_far_expiration:
  "CheckAndSetNonce 1700000000 empty_store ''abc'' 20146744074
   = (\<lparr> r_data = [''abc'' \<mapsto> (''1'', 290448384)], r_reachable = True,
        r_commands = [(''abc'', ''1'', 290448384)] \<rparr>, True, None)"
  by (simp add: CheckAndSetNonce_def SetNX_def Let_def time_Second_def word_sless_alt
        empty_store_def)

section \<open>The engine without a nonce\<close>

lemma check_nonce_without_string_nonce:
  assumes "\<forall>v. meta ''nonce'' \<noteq> Some (JString v)"
  shows "check_nonce env opts meta res store = (res, store, False)"
  using assms by (auto simp: check_nonce_def split: option.splits json.splits)

lemma check_nonce_unconfigured:
  "check_nonce env (opts\<lparr>RedisURL := []\<rparr>) meta res store = (res, store, False)"
  by (simp add: check_nonce_def)

lemma check_scope_RedisURL [simp]:
  "check_scope (opts\<lparr>RedisURL := u\<rparr>) meta res = check_scope opts meta res"
  by (auto simp: check_scope_def split: option.splits json.splits)

lemma check_audience_RedisURL [simp]:
  "check_audience (opts\<lparr>RedisURL := u\<rparr>) meta res = check_audience opts meta res"
  by (auto simp: check_audience_def split: option.splits json.splits)

lemma Verify_without_string_nonce:
  assumes load: "e_LoadPTX env (FilePath opts) = Inr ptxFile"
    and meta: "e_json_map env (ptx_SignedMetadata ptxFile) = Some meta"
    and nonce: "\<forall>v. meta ''nonce'' \<noteq> Some (JString v)"
  shows "Verify env undef opts store = Verify env undef (opts\<lparr>RedisURL := []\<rparr>) store"
    and "Verify env undef opts store = Inr (res, store') \<Longrightarrow> store' = store"
proof -
  have skip: "check_nonce env opts meta r store = (r, store, False)" for r
    using nonce by (rule check_nonce_without_string_nonce)
  show "Verify env undef opts store = Verify env undef (opts\<lparr>RedisURL := []\<rparr>) store"
    using load meta
    by (simp add: Verify_def skip check_nonce_unconfigured split: sum.splits)
  show "Verify env undef opts store = Inr (res, store') \<Longrightarrow> store' = store"
    using load meta by (auto simp: Verify_def skip split: sum.splits)
qed

lemma Verify_times_same:
  assumes "Verify env undef opts store = Inr (res, store)"
  shows "Verify_times n env undef opts store = Inr (replicate n res, store)"
  using assms by (induction n) simp_all

text \<open>
  Claim C10. A replay store is configured (\<open>RedisURL\<close> is not empty) and the decoded
  metadata has no string under \<open>nonce\<close>. Then \<open>Verify\<close> returns exactly what it returns with
  no store configured (same verdict, same errors), the store comes back as it was (no
  command reached it), and verifying the same file any number of times in a row gives the
  same result every time and still leaves the store as it was.
\<close>

theorem C10_no_replay_check_without_string_nonce:
  assumes "RedisURL opts \<noteq> []"
    and "e_LoadPTX env (FilePath opts) = Inr ptxFile"
    and "e_json_map env (ptx_SignedMetadata ptxFile) = Some meta"
    and "\<forall>v. meta ''nonce'' \<noteq> Some (JString v)"
  shows "Verify env undef opts store = Verify env undef (opts\<lparr>RedisURL := []\<rparr>) store \<and>
         map_sum id snd (Verify env undef opts store)
           = map_sum id (\<lambda>r. store) (Verify env undef opts store) \<and>
         Verify_times n env undef opts store = repeated n store (Verify env undef opts store)"
proof (intro conjI)
  show "Verify env undef opts store = Verify env undef (opts\<lparr>RedisURL := []\<rparr>) store"
    using assms(2-4) by (rule Verify_without_string_nonce(1))
next
  show "map_sum id snd (Verify env undef opts store)
        = map_sum id (\<lambda>r. store) (Verify env undef opts store)"
  proof (cases "Verify env undef opts store")
    case (Inl p)
    then show ?thesis by simp
  next
    case (Inr r)
    obtain res store' where r: "r = (res, store')" by (cases r)
    have "store' = store"
      using assms(2-4) Inr [unfolded r] by (rule Verify_without_string_nonce(2))
    then show ?thesis by (simp add: Inr r)
  qed
next
  show "Verify_times n env undef opts store = repeated n store (Verify env undef opts store)"
  proof (cases "Verify env undef opts store")
    case (Inl p)
    then show ?thesis by (cases n) (simp_all add: repeated_def)
  next
    case (Inr r)
    obtain res store' where r: "r = (res, store')" by (cases r)
    have same: "store' = store"
      using assms(2-4) Inr [unfolded r] by (rule Verify_without_string_nonce(2))
    have "Verify_times n env undef opts store = Inr (replicate n res, store)"
      using Inr r same by (intro Verify_times_same) simp
    then show ?thesis by (cases n) (simp_all add: repeated_def Inr r)
  qed
qed

theorem C10_no_replay_check_without_string_nonce_witness:
  "RedisURL sample_opts \<noteq> [] \<and>
   Verify sample_env zero_on_failure sample_opts empty_store
     = Verify sample_env zero_on_failure (sample_opts\<lparr>RedisURL := []\<rparr>) empty_store \<and>
   map_sum id snd (Verify sample_env zero_on_failure sample_opts empty_store)
     = map_sum id (\<lambda>r. empty_store) (Verify sample_env zero_on_failure sample_opts empty_store) \<and>
   Verify_times 3 sample_env zero_on_failure sample_opts empty_store
     = repeated 3 empty_store (Verify sample_env zero_on_failure sample_opts empty_store)"
proof -
  have url: "RedisURL sample_opts \<noteq> []"
    by (simp add: sample_opts_def)
  have load: "e_LoadPTX sample_env (FilePath sample_opts) = Inr sample_ptx"
    by (simp add: sample_env_def)
  have meta: "e_json_map sample_env (ptx_SignedMetadata sample_ptx) = Some Map.empty"
    by (simp add: sample_env_def)
  have nonce: "\<forall>v. (Map.empty :: string \<rightharpoonup> json) ''nonce'' \<noteq> Some (JString v)"
    by simp
  show ?thesis
    using C10_no_replay_check_without_string_nonce [OF url load meta nonce] url by blast
qed

section \<open>The prover's self-verification\<close>

text \<open>
  Claim C5, as the code has it. When compilation, the keys, the witness and the proof
  succeed, \<open>GenerateProofNative\<close> verifies the fresh proof against the verifying key on the
  public witness, and returns the proof's envelope whatever the verdict: a failed
  self-verification only prints a warning line.
\<close>

theorem C5_self_verification_only_warns:
  assumes "g_Compile env = None"
    and "g_loadOrSetupKeys env = Inr (pk, vk)"
    and "g_NewWitness_error env (prover_assignment undef inputs) = None"
    and "g_Public_error env (NewWitness (prover_assignment undef inputs)) = None"
    and "g_Prove env pk (NewWitness (prover_assignment undef inputs)) = Inr proofBytes"
  shows "GenerateProofNative env undef inputs
         = (Inr (native_wrapper inputs proofBytes),
            self_verify_output
              (g_Verify env proofBytes vk
                 (Public (NewWitness (prover_assignment undef inputs)))))"
  using assms by (simp add: GenerateProofNative_def)

theorem C5_self_verification_only_warns_witness:
  "GenerateProofNative rejecting_gnark zero_on_failure sample_inputs
   = (Inr (native_wrapper sample_inputs [171, 205]),
      self_verify_output
        (g_Verify rejecting_gnark [171, 205] [3, 4]
           (Public (NewWitness (prover_assignment zero_on_failure sample_inputs)))))"
proof -
  have a: "g_Compile rejecting_gnark = None"
    and b: "g_loadOrSetupKeys rejecting_gnark = Inr ([1, 2], [3, 4])"
    and c: "g_NewWitness_error rejecting_gnark
              (prover_assignment zero_on_failure sample_inputs) = None"
    and d: "g_Public_error rejecting_gnark
              (NewWitness (prover_assignment zero_on_failure sample_inputs)) = None"
    and e: "g_Prove rejecting_gnark [1, 2]
              (NewWitness (prover_assignment zero_on_failure sample_inputs)) = Inr [171, 205]"
    by (simp_all add: rejecting_gnark_def)
  show ?thesis
    by (rule C5_self_verification_only_warns [OF a b c d e])
qed

text \<open>
  The claim fails: with a verifier that rejects the fresh proof, the prover returns the
  envelope with the proof bytes \<open>abcd\<close> and no error; the rejection is only printed.
\<close>

theorem C5_failed_self_verification_counterexample:
  "GenerateProofNative rejecting_gnark zero_on_failure sample_inputs
   = (Inr \<lparr> w_Source = ''gnark_native'',
            w_PublicSignals = [''11'', ''12'', ''13'', ''14'', ''15'', ''1''],
            w_Proof = [],
            w_ProofHex = ''abcd'' \<rparr>,
      [''WARNING: Generated proof failed self-verification! pairing check failed''])"
  by (simp add: GenerateProofNative_def rejecting_gnark_def native_wrapper_def
        sample_inputs_def self_verify_output_def EncodeToString_def hex_digit_def)

section \<open>The shape of a SHA-256 digest\<close>

lemma length_sha_round [simp]: "length (sha_round kw s) = length s"
  by (auto simp: sha_round_def Let_def split: list.splits)

lemma length_fold_sha_round [simp]: "length (fold sha_round kws s) = length s"
  by (induction kws arbitrary: s) simp_all

lemma length_sha_block [simp]: "length (sha_block hs blk) = length hs"
  by (simp add: sha_block_def)

lemma length_sha_blocks [simp]: "length (sha_blocks hs blks) = length hs"
  by (induction blks arbitrary: hs) simp_all

lemma length_be_bytes [simp]: "length (be_bytes n v) = n"
  by (simp add: be_bytes_def)

lemma length_concat_be_bytes: "length (concat (map (be_bytes 4) ws)) = 4 * length ws"
  by (induction ws) simp_all

lemma length_Sum256 [simp]: "length (Sum256 m) = 32"
  by (simp add: Sum256_def length_concat_be_bytes sha_H0_def)

lemma be_bytes_range: "b \<in> set (be_bytes n v) \<Longrightarrow> 0 \<le> b \<and> b < 256"
  by (auto simp: be_bytes_def)

lemma Sum256_range: "b \<in> set (Sum256 m) \<Longrightarrow> 0 \<le> b \<and> b < 256"
  by (auto simp: Sum256_def dest: be_bytes_range)

section \<open>Hexadecimal text of bytes, read back\<close>

lemma digit_value_hex_digit:
  assumes "0 \<le> d" and "d < 16"
  shows "digit_value (hex_digit d) = Some d"
proof -
  from assms have "d = 0 \<or> d = 1 \<or> d = 2 \<or> d = 3 \<or> d = 4 \<or> d = 5 \<or> d = 6 \<or> d = 7
      \<or> d = 8 \<or> d = 9 \<or> d = 10 \<or> d = 11 \<or> d = 12 \<or> d = 13 \<or> d = 14 \<or> d = 15"
    by arith
  then show ?thesis
    by (elim disjE) (simp_all add: hex_digit_def digit_value_def)
qed

lemma hex_digit_not_sign:
  assumes "0 \<le> d" and "d < 16"
  shows "hex_digit d \<noteq> CHR ''-'' \<and> hex_digit d \<noteq> CHR ''+''"
proof -
  from assms have "d = 0 \<or> d = 1 \<or> d = 2 \<or> d = 3 \<or> d = 4 \<or> d = 5 \<or> d = 6 \<or> d = 7
      \<or> d = 8 \<or> d = 9 \<or> d = 10 \<or> d = 11 \<or> d = 12 \<or> d = 13 \<or> d = 14 \<or> d = 15"
    by arith
  then show ?thesis
    by (elim disjE) (simp_all add: hex_digit_def)
qed

lemma scan_digits_EncodeToString:
  assumes "\<forall>b \<in> set bs. 0 \<le> b \<and> b < 256"
  shows "scan_digits 16 (EncodeToString bs) acc = Some (foldl (\<lambda>a b. a * 256 + b) acc bs)"
  using assms
proof (induction bs arbitrary: acc)
  case Nil
  then show ?case by (simp add: EncodeToString_def)
next
  case (Cons b bs)
  have b: "0 \<le> b" "b < 256" using Cons.prems by simp_all
  have hi: "0 \<le> b div 16" "b div 16 < 16" using b by simp_all
  have lo: "0 \<le> b mod 16" "b mod 16 < 16" by simp_all
  have enc: "EncodeToString (b # bs)
             = hex_digit (b div 16) # hex_digit (b mod 16) # EncodeToString bs"
    by (simp add: EncodeToString_def)
  have step: "scan_digits 16 (EncodeToString (b # bs)) acc
              = scan_digits 16 (EncodeToString bs) ((acc * 16 + b div 16) * 16 + b mod 16)"
    by (simp add: enc digit_value_hex_digit hi lo)
  have "b = 16 * (b div 16) + b mod 16" by simp
  then have arith: "(acc * 16 + b div 16) * 16 + b mod 16 = acc * 256 + b"
    by (simp add: algebra_simps)
  have "scan_digits 16 (EncodeToString bs) (acc * 256 + b)
        = Some (foldl (\<lambda>a b. a * 256 + b) (acc * 256 + b) bs)"
    using Cons.prems by (intro Cons.IH) simp
  then show ?case
    unfolding step arith by simp
qed

lemma SetString_EncodeToString:
  assumes "\<forall>b \<in> set bs. 0 \<le> b \<and> b < 256" and "bs \<noteq> []"
  shows "SetString undef (EncodeToString bs) 16 = SetBytes bs"
proof -
  obtain b rest where bs: "bs = b # rest"
    using assms(2) by (cases bs) auto
  have "0 \<le> b" "b < 256"
    using assms(1) by (simp_all add: bs)
  then have b: "0 \<le> b div 16" "b div 16 < 16"
    by simp_all
  have enc: "EncodeToString bs = hex_digit (b div 16) # hex_digit (b mod 16) # EncodeToString rest"
    by (simp add: EncodeToString_def bs)
  have "parse_int (EncodeToString bs) 16 = scan_digits 16 (EncodeToString bs) 0"
    using hex_digit_not_sign [OF b] by (simp add: enc scan_unsigned_def)
  then show ?thesis
    by (simp add: SetString_def SetBytes_def scan_digits_EncodeToString [OF assms(1)])
qed

section \<open>The two halves of a digest\<close>

lemma foldl_bytes_acc:
  fixes acc :: int
  shows "foldl (\<lambda>a b. a * 256 + b) acc bs
         = acc * 256 ^ length bs + foldl (\<lambda>a b. a * 256 + b) 0 bs"
proof (induction bs arbitrary: acc)
  case Nil
  then show ?case by simp
next
  case (Cons b bs)
  show ?case
    using Cons.IH [of "acc * 256 + b"] Cons.IH [of b]
    by (simp add: algebra_simps)
qed

lemma SetBytes_append:
  "SetBytes (xs @ ys) = SetBytes xs * 256 ^ length ys + SetBytes ys"
  by (simp add: SetBytes_def foldl_bytes_acc [of "foldl (\<lambda>a b. a * 256 + b) 0 xs"])

lemma SetBytes_range:
  assumes "\<forall>b \<in> set bs. 0 \<le> b \<and> b < 256"
  shows "0 \<le> SetBytes bs \<and> SetBytes bs < 256 ^ length bs"
  using assms
proof (induction bs rule: rev_induct)
  case Nil
  then show ?case by (simp add: SetBytes_def)
next
  case (snoc b bs)
  then have IH: "0 \<le> SetBytes bs" "SetBytes bs < 256 ^ length bs"
    and b: "0 \<le> b" "b < 256"
    by simp_all
  have "SetBytes bs + 1 \<le> 256 ^ length bs" using IH by simp
  then have "(SetBytes bs + 1) * 256 \<le> 256 ^ length bs * 256"
    by (rule mult_right_mono) simp
  then show ?case
    using IH b by (simp add: SetBytes_append SetBytes_def algebra_simps)
qed

lemma split_halves:
  fixes hi lo :: int
  assumes "0 \<le> hi" "hi < 2 ^ 128" "0 \<le> lo" "lo < 2 ^ 128"
  shows "(hi * 2 ^ 128 + lo) AND (push_bit 128 1 - 1) = lo"
    and "drop_bit 128 (hi * 2 ^ 128 + lo) AND (push_bit 128 1 - 1) = hi"
proof -
  have m: "push_bit 128 (1::int) - 1 = mask 128"
    by (simp add: mask_eq_exp_minus_1 push_bit_eq_mult)
  have "(hi * 2 ^ 128 + lo) mod 2 ^ 128 = lo"
    using assms by simp
  then show "(hi * 2 ^ 128 + lo) AND (push_bit 128 1 - 1) = lo"
    unfolding m by (simp only: take_bit_eq_mask [symmetric] take_bit_eq_mod)
  have "(hi * 2 ^ 128 + lo) div 2 ^ 128 = hi"
    using assms by simp
  then have "drop_bit 128 (hi * 2 ^ 128 + lo) = hi"
    by (simp only: drop_bit_eq_div)
  moreover have "hi AND mask 128 = hi"
    using assms by (simp only: take_bit_eq_mask [symmetric] take_bit_eq_mod) simp
  ultimately show "drop_bit 128 (hi * 2 ^ 128 + lo) AND (push_bit 128 1 - 1) = hi"
    unfolding m by simp
qed

lemma SetBigInt_small:
  assumes "0 \<le> v" and "v < 2 ^ 128"
  shows "SetBigInt v = v"
proof -
  have "(2::int) ^ 128 < SNARK_FIELD_SIZE"
    by (simp add: SNARK_FIELD_SIZE_def)
  then show ?thesis
    using assms by (simp add: SetBigInt_def)
qed

lemma digest_halves:
  assumes len: "length d = 32" and rng: "\<forall>b \<in> set d. 0 \<le> b \<and> b < 256"
  shows "SetBytes d = SetBytes (take 16 d) * 2 ^ 128 + SetBytes (drop 16 d)"
    and "0 \<le> SetBytes (take 16 d) \<and> SetBytes (take 16 d) < 2 ^ 128"
    and "0 \<le> SetBytes (drop 16 d) \<and> SetBytes (drop 16 d) < 2 ^ 128"
proof -
  have p: "(256::int) ^ 16 = 2 ^ 128" by simp
  have "SetBytes d = SetBytes (take 16 d @ drop 16 d)" by simp
  also have "\<dots> = SetBytes (take 16 d) * 256 ^ length (drop 16 d) + SetBytes (drop 16 d)"
    by (rule SetBytes_append)
  finally show "SetBytes d = SetBytes (take 16 d) * 2 ^ 128 + SetBytes (drop 16 d)"
    using len by (simp only: length_drop p) simp
  have "\<forall>b \<in> set (take 16 d). 0 \<le> b \<and> b < 256"
    using rng by (auto dest: in_set_takeD)
  from SetBytes_range [OF this] len
  show "0 \<le> SetBytes (take 16 d) \<and> SetBytes (take 16 d) < 2 ^ 128"
    by (simp add: p [symmetric] del: p)
  have "\<forall>b \<in> set (drop 16 d). 0 \<le> b \<and> b < 256"
    using rng by (auto dest: in_set_dropD)
  from SetBytes_range [OF this] len
  show "0 \<le> SetBytes (drop 16 d) \<and> SetBytes (drop 16 d) < 2 ^ 128"
    by (simp add: p [symmetric] del: p)
qed

lemma SplitHashToFieldElements_digest:
  assumes len: "length d = 32" and rng: "\<forall>b \<in> set d. 0 \<le> b \<and> b < 256"
  shows "SplitHashToFieldElements undef (EncodeToString d)
         = (SetBytes (drop 16 d), SetBytes (take 16 d))"
proof -
  have ne: "d \<noteq> []" using len by auto
  note h = digest_halves [OF len rng]
  let ?hi = "SetBytes (take 16 d)" and ?lo = "SetBytes (drop 16 d)"
  have parse: "SetString undef (EncodeToString d) 16 = ?hi * 2 ^ 128 + ?lo"
    using SetString_EncodeToString [OF rng ne] h(1) by simp
  have lo: "(?hi * 2 ^ 128 + ?lo) AND (push_bit 128 1 - 1) = ?lo"
    and hi: "drop_bit 128 (?hi * 2 ^ 128 + ?lo) AND (push_bit 128 1 - 1) = ?hi"
    using h(2,3) by (simp_all only: split_halves)
  have "SplitHashToFieldElements undef (EncodeToString d) = (SetBigInt ?lo, SetBigInt ?hi)"
    by (simp only: SplitHashToFieldElements_def Let_def parse lo hi)
  then show ?thesis
    using h(2,3) by (simp only: SetBigInt_small)
qed

lemma SplitMetadataHash_halves:
  "SplitMetadataHash undef metaRaw
   = (SetBytes (drop 16 (Sum256 (bytes_of metaRaw))), SetBytes (take 16 (Sum256 (bytes_of metaRaw))))"
  unfolding SplitMetadataHash_def
  by (rule SplitHashToFieldElements_digest) (auto dest: Sum256_range)

lemma hashToBigInts_digest:
  "hashToBigInts (Sum256 m) = Inr (SetBytes (take 16 (Sum256 m)), SetBytes (drop 16 (Sum256 m)))"
  by (simp add: hashToBigInts_def)

section \<open>Three digests\<close>

lemma Sum256_empty_object:
  "Sum256 (bytes_of ''{}'')
   = [68, 19, 111, 163, 85, 179, 103, 138, 17, 70, 173, 22, 247, 232, 100, 158,
      148, 251, 79, 194, 31, 231, 126, 131, 16, 192, 96, 246, 28, 170, 255, 138]"
  by code_simp

lemma Sum256_zero_buffer:
  "Sum256 (replicate 32 0)
   = [102, 104, 122, 173, 248, 98, 189, 119, 108, 143, 193, 139, 142, 159, 142, 32,
      8, 151, 20, 133, 110, 226, 51, 179, 144, 42, 89, 29, 13, 95, 41, 37]"
  by code_simp

lemma Sum256_example_com:
  "Sum256 (bytes_of ''example.com'')
   = [163, 121, 166, 246, 238, 175, 185, 165, 94, 55, 140, 17, 128, 52, 226, 117,
      30, 104, 47, 171, 159, 45, 48, 171, 19, 210, 18, 85, 134, 206, 25, 71]"
  by code_simp

lemma SetBytes_empty_object:
  "SetBytes (Sum256 (bytes_of ''{}''))
   = 30791614295234051711832508548800469788824342480481074093233550318061354680202"
  unfolding Sum256_empty_object by (simp add: SetBytes_def)

lemma SetBytes_zero_buffer:
  "SetBytes (Sum256 (replicate 32 0))
   = 46320509353513273106582423493727320152202237096314791991810382902766530930981"
  unfolding Sum256_zero_buffer by (simp add: SetBytes_def)

lemma SetBytes_example_com:
  "SetBytes (Sum256 (bytes_of ''example.com''))
   = 73941935161087667724447101869281481443014760260966189223021767924207747733831"
  unfolding Sum256_example_com by (simp add: SetBytes_def)

section \<open>The halves as quotient and remainder\<close>

lemma Sum256_halves:
  "SetBytes (drop 16 (Sum256 m)) = SetBytes (Sum256 m) mod 2 ^ 128"
  "SetBytes (take 16 (Sum256 m)) = SetBytes (Sum256 m) div 2 ^ 128"
proof -
  have rng: "\<forall>b \<in> set (Sum256 m). 0 \<le> b \<and> b < 256"
    by (auto dest: Sum256_range)
  note h = digest_halves [OF length_Sum256 rng]
  let ?hi = "SetBytes (take 16 (Sum256 m))" and ?lo = "SetBytes (drop 16 (Sum256 m))"
  have "(?hi * 2 ^ 128 + ?lo) mod 2 ^ 128 = ?lo"
    using h(3) by simp
  then show "?lo = SetBytes (Sum256 m) mod 2 ^ 128"
    by (simp only: h(1) [symmetric])
  have "(?hi * 2 ^ 128 + ?lo) div 2 ^ 128 = ?hi"
    using h(3) by simp
  then show "?hi = SetBytes (Sum256 m) div 2 ^ 128"
    by (simp only: h(1) [symmetric])
qed

lemma SplitMetadataHash_mod_div:
  "SplitMetadataHash undef metaRaw
   = (SetBytes (Sum256 (bytes_of metaRaw)) mod 2 ^ 128,
      SetBytes (Sum256 (bytes_of metaRaw)) div 2 ^ 128)"
  by (simp only: SplitMetadataHash_halves Sum256_halves)

lemma hashToBigInts_div_mod:
  "hashToBigInts (Sum256 m)
   = Inr (SetBytes (Sum256 m) div 2 ^ 128, SetBytes (Sum256 m) mod 2 ^ 128)"
  by (simp only: hashToBigInts_digest Sum256_halves)

section \<open>The split of the metadata digest on the two sides\<close>

text \<open>
  Claim C7. For every metadata string the prover-side split \<open>SplitMetadataHash\<close> returns the
  low 128 bits of the digest first and the high 128 bits second, as the claim says; the
  verifier-side \<open>hashToBigInts\<close> returns the high 128 bits first and the low 128 bits second.
  The two sides compute the two halves in opposite order.
\<close>

theorem C7_halves_in_opposite_order:
  "SplitMetadataHash undef metaRaw
     = (SetBytes (Sum256 (bytes_of metaRaw)) mod 2 ^ 128,
        SetBytes (Sum256 (bytes_of metaRaw)) div 2 ^ 128) \<and>
   hashToBigInts (Sum256 (bytes_of metaRaw))
     = Inr (SetBytes (Sum256 (bytes_of metaRaw)) div 2 ^ 128,
            SetBytes (Sum256 (bytes_of metaRaw)) mod 2 ^ 128)"
  by (simp only: SplitMetadataHash_mod_div hashToBigInts_div_mod simp_thms)

text \<open>
  On the metadata \<open>{}\<close>, whose digest is \<open>44136fa3...1caaff8a\<close>: the prover side gives
  \<open>p1 = 198030627578155901778469647491871211402\<close> (low) and
  \<open>p2 = 90488421641866048750073685292303803550\<close> (high); the verifier side gives the two
  numbers the other way round.
\<close>

theorem C7_halves_in_opposite_order_witness:
  "SplitMetadataHash zero_on_failure ''{}''
     = (198030627578155901778469647491871211402, 90488421641866048750073685292303803550) \<and>
   hashToBigInts (Sum256 (bytes_of ''{}''))
     = Inr (90488421641866048750073685292303803550, 198030627578155901778469647491871211402)"
  using C7_halves_in_opposite_order [of zero_on_failure "''{}''"]
  by (simp add: SetBytes_empty_object)

section \<open>The hostname of the zero commitment\<close>

lemma SetString_zero: "SetString undef ''0'' 10 = 0" "SetString undef ''0'' 16 = 0"
  by (simp_all add: SetString_def scan_unsigned_def digit_value_def)

lemma Bytes_zero: "Bytes 0 = []"
  by (simp add: Bytes_def)

lemma le_buffer_Nil: "le_buffer [] = replicate 32 0"
  by (simp add: le_buffer_def)

lemma Base27_value_zero_digest:
  "Base27_value 46320509353513273106582423493727320152202237096314791991810382902766530930981
   = ''gjtwmmwvhljgccsfweutawym-owsnswmtydlqpwxkrijelvkkkrmlf''"
  by code_simp

lemma Base27_zero_digest:
  "Base27 undef (EncodeToString (Sum256 (replicate 32 0)))
   = ''gjtwmmwvhljgccsfweutawym-owsnswmtydlqpwxkrijelvkkkrmlf''"
proof -
  have "SetString undef (EncodeToString (Sum256 (replicate 32 0))) 16
        = SetBytes (Sum256 (replicate 32 0))"
  proof (rule SetString_EncodeToString)
    show "\<forall>b \<in> set (Sum256 (replicate 32 0)). 0 \<le> b \<and> b < 256"
      by (auto dest: Sum256_range)
    show "Sum256 (replicate 32 0) \<noteq> []"
      unfolding Sum256_zero_buffer by simp
  qed
  then show ?thesis
    by (simp only: Base27_def SetBytes_zero_buffer Base27_value_zero_digest)
qed

text \<open>
  Claim C8, as the code has it. The integer zero encodes in base 27 as the single character
  \<open>a\<close>. The hostname of the commitment zero is not built from that encoding: the commitment
  is written into a buffer of 32 bytes, the buffer is hashed with SHA-256, and the digest is
  what is encoded. For every parent domain \<open>D\<close> the hostname is
  \<open>xgjtwmmwvhljgccsfweutawym-owsnswmtydlqpwxkrijelvkkkrmlfx.D\<close>.
\<close>

theorem C8_hostname_of_zero_commitment:
  "Base27 undef ''0'' = ''a'' \<and>
   DeriveHostnameFromCommitment undef ''0'' D
     = Inr (''xgjtwmmwvhljgccsfweutawym-owsnswmtydlqpwxkrijelvkkkrmlfx.'' @ D)"
proof
  show "Base27 undef ''0'' = ''a''"
    by (simp add: Base27_def SetString_zero Base27_value_def alphabet_def)
  show "DeriveHostnameFromCommitment undef ''0'' D
        = Inr (''xgjtwmmwvhljgccsfweutawym-owsnswmtydlqpwxkrijelvkkkrmlfx.'' @ D)"
    by (simp only: DeriveHostnameFromCommitment_def SetString_zero Bytes_zero le_buffer_Nil
          Base27_zero_digest) simp
qed

text \<open>
  The claim fails on the parent domain \<open>ex.io\<close>: the hostname of the commitment \<open>0\<close> is not
  \<open>xax.ex.io\<close>.
\<close>

theorem C8_zero_commitment_counterexample:
  "DeriveHostnameFromCommitment zero_on_failure ''0'' ''ex.io''
     = Inr ''xgjtwmmwvhljgccsfweutawym-owsnswmtydlqpwxkrijelvkkkrmlfx.ex.io'' \<and>
   DeriveHostnameFromCommitment zero_on_failure ''0'' ''ex.io'' \<noteq> Inr ''xax.ex.io''"
proof -
  have "DeriveHostnameFromCommitment zero_on_failure ''0'' ''ex.io''
        = Inr ''xgjtwmmwvhljgccsfweutawym-owsnswmtydlqpwxkrijelvkkkrmlfx.ex.io''"
    by code_simp
  then show ?thesis
    by simp
qed

end
